theory Spec2Isabelle
  imports Complex_Main "HOL-Library.Word"
begin

section \<open>Operator rules of the AD engine (include/ad/OpTraits.h)\<close>

text \<open>
  The development embeds the per-operator differentiation rules of
  \<^verbatim>\<open>include/ad/OpTraits.h\<close>. Conventions of the embedding:

  \<^item> A C++ \<^verbatim>\<open>double\<close> is a HOL \<^typ>\<open>real\<close>: arithmetic is exact, and rounding,
    infinities and NaN are outside the model.
  \<^item> Nodes live in a heap indexed by addresses (\<^typ>\<open>nat\<close>); a node handle in
    \<^verbatim>\<open>inputs\<close> is \<^term>\<open>Some a\<close> or \<^term>\<open>None\<close> (the null pointer).
  \<^item> A pass function takes the address of the visited node and the state (heap
    and graph counters) and returns the new state, or an error where the C++
    dereferences a null handle.
  \<^item> The per-thread scratch vectors (\<^verbatim>\<open>vals\<close>, \<^verbatim>\<open>dots\<close>, \<^verbatim>\<open>pre\<close>, \<^verbatim>\<open>suf\<close>,
    \<^verbatim>\<open>y\<close>) are resized and completely overwritten before they are read in
    every pass, so they are local lists here.
\<close>

subsection \<open>Data model\<close>

type_synonym epoch = "64 word"

text \<open>
  Modelled from the spec: the declaration of \<^verbatim>\<open>enum class Operator\<close> is not in
  OpTraits.h. The seventeen tags are the ones the header specialises
  \<^verbatim>\<open>OpTraits\<close> for; \<open>OtherOp k\<close> stands for any further (unknown or future)
  tag. The tag \<^verbatim>\<open>Max\<close> is written \<open>MaxOp\<close>, since \<open>Max\<close> is the maximum of a
  set in HOL.
\<close>

datatype Operator =
    cte | Var | Add | Subtract | Multiply | Divide
  | Sin | Cos | Tan | Exp | Log | MaxOp | Tanh | Silu | Gelu | Relu | Softmax
  | OtherOp nat

text \<open>
  Modelled from the spec: \<^verbatim>\<open>ADNode\<close> and \<^verbatim>\<open>ADGraph\<close> are declared in ADGraph.h,
  which is outside the header. The fields are the ones OpTraits.h uses; the
  epoch tags and counters are \<^verbatim>\<open>u64\<close>. The field \<^verbatim>\<open>value\<close> is written
  \<open>node_value\<close> (\<open>value\<close> is a command of Isabelle), and the counters
  \<^verbatim>\<open>cur_val_epoch_\<close>, \<dots> lose their trailing underscore.
\<close>

record ADNode =
  op :: Operator
  inputs :: "nat option list"
  node_value :: real
  dot :: real
  gradient :: real
  grad_dot :: real
  val_epoch :: epoch
  dot_epoch :: epoch
  grad_epoch :: epoch
  gdot_epoch :: epoch

record ADGraph =
  cur_val_epoch :: epoch
  cur_dot_epoch :: epoch
  cur_grad_epoch :: epoch
  cur_gdot_epoch :: epoch

record ADState =
  heap :: "nat \<Rightarrow> ADNode"
  graph :: ADGraph

datatype error = NullDeref

subsection \<open>Epoch protocol\<close>

text \<open>
  Modelled from the spec: \<^verbatim>\<open>touch_epoch\<close>, \<^verbatim>\<open>set_epoch_value\<close> and
  \<^verbatim>\<open>ensure_epoch_zero\<close> are declared in ADGraph.h. Following section 4.1 of
  the specification: touch marks the tag live; set writes the value and marks
  the tag live; ensure-zero clears a slot whose tag is not the current counter,
  marks it live, and hands the slot back for accumulation. A slot with its tag
  is a pair here.
\<close>

definition touch_epoch :: "epoch \<Rightarrow> epoch \<Rightarrow> epoch" where
  "touch_epoch tag cur = cur"

definition set_epoch_value :: "real \<times> epoch \<Rightarrow> epoch \<Rightarrow> real \<Rightarrow> real \<times> epoch" where
  "set_epoch_value slot cur v = (v, cur)"

definition ensure_epoch_zero :: "real \<times> epoch \<Rightarrow> epoch \<Rightarrow> real \<times> epoch" where
  "ensure_epoch_zero slot cur = (if snd slot \<noteq> cur then (0, cur) else slot)"

text \<open>The protocol applied to the four slots of the node at an address.\<close>

definition upd_node :: "nat \<Rightarrow> (ADNode \<Rightarrow> ADNode) \<Rightarrow> ADState \<Rightarrow> ADState" where
  "upd_node a F st = st\<lparr>heap := (heap st)(a := F (heap st a))\<rparr>"

definition set_value :: "nat \<Rightarrow> real \<Rightarrow> ADState \<Rightarrow> ADState" where
  "set_value a v st = upd_node a (\<lambda>nd.
     case set_epoch_value (node_value nd, val_epoch nd) (cur_val_epoch (graph st)) v of
       (x, e) \<Rightarrow> nd\<lparr>node_value := x, val_epoch := e\<rparr>) st"

definition set_dot :: "nat \<Rightarrow> real \<Rightarrow> ADState \<Rightarrow> ADState" where
  "set_dot a v st = upd_node a (\<lambda>nd.
     case set_epoch_value (dot nd, dot_epoch nd) (cur_dot_epoch (graph st)) v of
       (x, e) \<Rightarrow> nd\<lparr>dot := x, dot_epoch := e\<rparr>) st"

definition touch_val :: "nat \<Rightarrow> ADState \<Rightarrow> ADState" where
  "touch_val a st = upd_node a (\<lambda>nd.
     nd\<lparr>val_epoch := touch_epoch (val_epoch nd) (cur_val_epoch (graph st))\<rparr>) st"

definition touch_dot :: "nat \<Rightarrow> ADState \<Rightarrow> ADState" where
  "touch_dot a st = upd_node a (\<lambda>nd.
     nd\<lparr>dot_epoch := touch_epoch (dot_epoch nd) (cur_dot_epoch (graph st))\<rparr>) st"

definition zero_grad :: "nat \<Rightarrow> ADState \<Rightarrow> ADState" where
  "zero_grad a st = upd_node a (\<lambda>nd.
     case ensure_epoch_zero (gradient nd, grad_epoch nd) (cur_grad_epoch (graph st)) of
       (x, e) \<Rightarrow> nd\<lparr>gradient := x, grad_epoch := e\<rparr>) st"

definition zero_gdot :: "nat \<Rightarrow> ADState \<Rightarrow> ADState" where
  "zero_gdot a st = upd_node a (\<lambda>nd.
     case ensure_epoch_zero (grad_dot nd, gdot_epoch nd) (cur_gdot_epoch (graph st)) of
       (x, e) \<Rightarrow> nd\<lparr>grad_dot := x, gdot_epoch := e\<rparr>) st"

text \<open>\<^verbatim>\<open>ref += v\<close> on a handle that ensure-zero returned.\<close>

definition add_grad :: "nat \<Rightarrow> real \<Rightarrow> ADState \<Rightarrow> ADState" where
  "add_grad a v st = upd_node a (\<lambda>nd. nd\<lparr>gradient := gradient nd + v\<rparr>) st"

definition add_gdot :: "nat \<Rightarrow> real \<Rightarrow> ADState \<Rightarrow> ADState" where
  "add_gdot a v st = upd_node a (\<lambda>nd. nd\<lparr>grad_dot := grad_dot nd + v\<rparr>) st"

text \<open>
  The statement \<^verbatim>\<open>ensure_epoch_zero(a->gradient, ...) += v\<close>: the right operand
  of a compound assignment is evaluated first, so \<open>v\<close> is a value by now.
\<close>

definition acc_grad :: "nat \<Rightarrow> real \<Rightarrow> ADState \<Rightarrow> ADState" where
  "acc_grad a v st = add_grad a v (zero_grad a st)"

definition acc_gdot :: "nat \<Rightarrow> real \<Rightarrow> ADState \<Rightarrow> ADState" where
  "acc_gdot a v st = add_gdot a v (zero_gdot a st)"

subsection \<open>Tiny helpers\<close>

definition safe_div :: "real \<Rightarrow> real \<Rightarrow> real" where
  "safe_div a b = (if b \<noteq> 0 then a / b else 0)"

definition unary_ok :: "ADNode \<Rightarrow> bool" where
  "unary_ok n \<longleftrightarrow> length (inputs n) = 1 \<and> inputs n ! 0 \<noteq> None"

definition binary_ok :: "ADNode \<Rightarrow> bool" where
  "binary_ok n \<longleftrightarrow> length (inputs n) = 2 \<and> inputs n ! 0 \<noteq> None \<and> inputs n ! 1 \<noteq> None"

definition nary_ok :: "ADNode \<Rightarrow> bool" where
  "nary_ok n \<longleftrightarrow> inputs n \<noteq> []"

text \<open>\<^verbatim>\<open>n.inputs[k]\<close> once the arity predicate has established that it is not null.\<close>

definition input_at :: "ADState \<Rightarrow> nat \<Rightarrow> nat \<Rightarrow> nat" where
  "input_at st n k = the (inputs (heap st n) ! k)"

text \<open>
  The n-ary rules dereference every handle of \<^verbatim>\<open>n.inputs\<close> without a null
  check. A null dereference ends the pass with no observable state, so the
  model resolves all handles first and fails if one of them is null.
\<close>

fun deref_all :: "nat option list \<Rightarrow> error + nat list" where
  "deref_all [] = Inr []"
| "deref_all (None # hs) = Inl NullDeref"
| "deref_all (Some a # hs) = (case deref_all hs of Inl e \<Rightarrow> Inl e | Inr as \<Rightarrow> Inr (a # as))"

subsection \<open>Generic unary plumbing\<close>

record UnaryRule =
  rule_f :: "real \<Rightarrow> real"
  rule_df :: "real \<Rightarrow> real"
  rule_d2 :: "real \<Rightarrow> real"
  rule_forward_dot :: "(nat \<Rightarrow> ADState \<Rightarrow> ADState) option"

definition UnaryOp_forward :: "UnaryRule \<Rightarrow> nat \<Rightarrow> ADState \<Rightarrow> ADState" where
  "UnaryOp_forward R n st =
     (if \<not> unary_ok (heap st n) then st
      else let a = input_at st n 0
           in set_value n (rule_f R (node_value (heap st a))) st)"

definition UnaryOp_forward_dot :: "UnaryRule \<Rightarrow> nat \<Rightarrow> ADState \<Rightarrow> ADState" where
  "UnaryOp_forward_dot R n st =
     (if \<not> unary_ok (heap st n) then st
      else case rule_forward_dot R of
        Some custom \<Rightarrow> custom n st
      | None \<Rightarrow>
          let a = input_at st n 0
          in touch_val n
               (set_dot n (rule_df R (node_value (heap st a)) * dot (heap st a)) st))"

definition UnaryOp_backward :: "UnaryRule \<Rightarrow> nat \<Rightarrow> ADState \<Rightarrow> ADState" where
  "UnaryOp_backward R n st =
     (if \<not> unary_ok (heap st n) then st
      else let a = input_at st n 0
           in acc_grad a (gradient (heap st n) * rule_df R (node_value (heap st a))) st)"

definition UnaryOp_hvp_backward :: "UnaryRule \<Rightarrow> nat \<Rightarrow> ADState \<Rightarrow> ADState" where
  "UnaryOp_hvp_backward R n st =
     (if \<not> unary_ok (heap st n) then st
      else let a = input_at st n 0;
               st1 = zero_grad a st;
               st2 = zero_gdot a st1;
               x = node_value (heap st2 a);
               xdot = dot (heap st2 a);
               df = rule_df R x;
               d2 = rule_d2 R x;
               st3 = add_grad a (gradient (heap st2 n) * df) st2
           in add_gdot a (grad_dot (heap st3 n) * df + gradient (heap st3 n) * d2 * xdot) st3)"

subsection \<open>Concrete unary rules\<close>

definition SinRule :: UnaryRule where
  "SinRule = \<lparr>rule_f = sin, rule_df = cos, rule_d2 = (\<lambda>x. - sin x), rule_forward_dot = None\<rparr>"

definition CosRule :: UnaryRule where
  "CosRule = \<lparr>rule_f = cos, rule_df = (\<lambda>x. - sin x), rule_d2 = (\<lambda>x. - cos x),
     rule_forward_dot = None\<rparr>"

definition ExpRule :: UnaryRule where
  "ExpRule = \<lparr>rule_f = exp, rule_df = exp, rule_d2 = exp, rule_forward_dot = None\<rparr>"

definition LogRule_forward_dot :: "nat \<Rightarrow> ADState \<Rightarrow> ADState" where
  "LogRule_forward_dot n st =
     (let a = input_at st n 0;
          x = node_value (heap st a)
      in touch_val n (set_dot n (if x \<noteq> 0 then dot (heap st a) / x else 0) st))"

definition LogRule :: UnaryRule where
  "LogRule = \<lparr>rule_f = ln,
     rule_df = (\<lambda>x. if x \<noteq> 0 then 1 / x else 0),
     rule_d2 = (\<lambda>x. if x \<noteq> 0 then - 1 / (x * x) else 0),
     rule_forward_dot = Some LogRule_forward_dot\<rparr>"

definition TanRule_forward_dot :: "nat \<Rightarrow> ADState \<Rightarrow> ADState" where
  "TanRule_forward_dot n st =
     (let a = input_at st n 0;
          c = cos (node_value (heap st a))
      in touch_val n (set_dot n (if c \<noteq> 0 then dot (heap st a) / (c * c) else 0) st))"

definition TanRule :: UnaryRule where
  "TanRule = \<lparr>rule_f = tan,
     rule_df = (\<lambda>x. let c = cos x in if c \<noteq> 0 then 1 / (c * c) else 0),
     rule_d2 = (\<lambda>x. let s = sin x; c = cos x in if c \<noteq> 0 then 2 * s / (c * c * c) else 0),
     rule_forward_dot = Some TanRule_forward_dot\<rparr>"

definition TanhRule :: UnaryRule where
  "TanhRule = \<lparr>rule_f = tanh,
     rule_df = (\<lambda>x. let t = tanh x in 1 - t * t),
     rule_d2 = (\<lambda>x. let t = tanh x; s2 = 1 - t * t in - 2 * t * s2),
     rule_forward_dot = None\<rparr>"

definition sigmoid :: "real \<Rightarrow> real" where
  "sigmoid x = (if x \<ge> 0 then (let z = exp (- x) in 1 / (1 + z))
                else (let z = exp x in z / (1 + z)))"

definition SiLURule :: UnaryRule where
  "SiLURule = \<lparr>rule_f = (\<lambda>x. let s = sigmoid x in x * s),
     rule_df = (\<lambda>x. let s = sigmoid x in s * (1 + x * (1 - s))),
     rule_d2 = (\<lambda>x. let s = sigmoid x; sp = s * (1 - s) in sp * (2 + x * (1 - 2 * s))),
     rule_forward_dot = None\<rparr>"

text \<open>
  \<^verbatim>\<open>std::erf\<close> is the error function of the C library, given here by its
  Maclaurin series; \<^verbatim>\<open>M_SQRT1_2\<close> is \<open>1 / sqrt 2\<close> and \<^verbatim>\<open>M_PI\<close> is \<open>pi\<close>.
\<close>

definition erf :: "real \<Rightarrow> real" where
  "erf x = 2 / sqrt pi * (\<Sum>k. (- 1) ^ k * x ^ (2 * k + 1) / (fact k * real (2 * k + 1)))"

definition GELURule :: UnaryRule where
  "GELURule = \<lparr>rule_f = (\<lambda>x. let z = x * (1 / sqrt 2) in 0.5 * x * (1 + erf z)),
     rule_df = (\<lambda>x. let z = x * (1 / sqrt 2);
                        A = sqrt (2 / pi) * exp (- 0.5 * x * x)
                    in 0.5 * (1 + erf z) + 0.5 * x * A),
     rule_d2 = (\<lambda>x. let A = sqrt (2 / pi) * exp (- 0.5 * x * x) in A * (1 - 0.5 * x * x)),
     rule_forward_dot = None\<rparr>"

definition ReluRule :: UnaryRule where
  "ReluRule = \<lparr>rule_f = (\<lambda>x. if x > 0 then x else 0),
     rule_df = (\<lambda>x. if x > 0 then 1 else 0),
     rule_d2 = (\<lambda>x. 0),
     rule_forward_dot = None\<rparr>"

subsection \<open>Generic binary plumbing\<close>

record BinaryRule =
  brule_f :: "real \<Rightarrow> real \<Rightarrow> real"
  brule_dfa :: "real \<Rightarrow> real \<Rightarrow> real"
  brule_dfb :: "real \<Rightarrow> real \<Rightarrow> real"
  brule_d2aa :: "real \<Rightarrow> real \<Rightarrow> real"
  brule_d2ab :: "real \<Rightarrow> real \<Rightarrow> real"
  brule_d2bb :: "real \<Rightarrow> real \<Rightarrow> real"
  brule_forward_dot :: "(nat \<Rightarrow> ADState \<Rightarrow> ADState) option"

definition BinaryOp_forward :: "BinaryRule \<Rightarrow> nat \<Rightarrow> ADState \<Rightarrow> ADState" where
  "BinaryOp_forward R n st =
     (if \<not> binary_ok (heap st n) then st
      else let a = input_at st n 0; b = input_at st n 1
           in set_value n (brule_f R (node_value (heap st a)) (node_value (heap st b))) st)"

definition BinaryOp_forward_dot :: "BinaryRule \<Rightarrow> nat \<Rightarrow> ADState \<Rightarrow> ADState" where
  "BinaryOp_forward_dot R n st =
     (if \<not> binary_ok (heap st n) then st
      else let a = input_at st n 0; b = input_at st n 1
           in case brule_forward_dot R of
                Some custom \<Rightarrow> custom n st
              | None \<Rightarrow>
                  let A = node_value (heap st a); B = node_value (heap st b)
                  in touch_val n
                       (set_dot n (brule_dfa R A B * dot (heap st a)
                                   + brule_dfb R A B * dot (heap st b)) st))"

definition BinaryOp_backward :: "BinaryRule \<Rightarrow> nat \<Rightarrow> ADState \<Rightarrow> ADState" where
  "BinaryOp_backward R n st =
     (if \<not> binary_ok (heap st n) then st
      else let a = input_at st n 0; b = input_at st n 1;
               A = node_value (heap st a); B = node_value (heap st b);
               w = gradient (heap st n);
               st1 = acc_grad a (w * brule_dfa R A B) st
           in acc_grad b (w * brule_dfb R A B) st1)"

definition BinaryOp_hvp_backward :: "BinaryRule \<Rightarrow> nat \<Rightarrow> ADState \<Rightarrow> ADState" where
  "BinaryOp_hvp_backward R n st =
     (if \<not> binary_ok (heap st n) then st
      else let a = input_at st n 0; b = input_at st n 1;
               A = node_value (heap st a); B = node_value (heap st b);
               Ad = dot (heap st a); Bd = dot (heap st b);
               st1 = zero_grad a st;
               st2 = zero_grad b st1;
               st3 = zero_gdot a st2;
               st4 = zero_gdot b st3;
               w = gradient (heap st4 n); wd = grad_dot (heap st4 n);
               st5 = add_grad a (w * brule_dfa R A B) st4;
               st6 = add_grad b (w * brule_dfb R A B) st5;
               st7 = add_gdot a (wd * brule_dfa R A B
                        + w * (brule_d2aa R A B * Ad + brule_d2ab R A B * Bd)) st6
           in add_gdot b (wd * brule_dfb R A B
                        + w * (brule_d2ab R A B * Ad + brule_d2bb R A B * Bd)) st7)"

subsection \<open>Concrete binary rules\<close>

definition AddRule :: BinaryRule where
  "AddRule = \<lparr>brule_f = (\<lambda>a b. a + b),
     brule_dfa = (\<lambda>a b. 1), brule_dfb = (\<lambda>a b. 1),
     brule_d2aa = (\<lambda>a b. 0), brule_d2ab = (\<lambda>a b. 0), brule_d2bb = (\<lambda>a b. 0),
     brule_forward_dot = None\<rparr>"

definition SubRule :: BinaryRule where
  "SubRule = \<lparr>brule_f = (\<lambda>a b. a - b),
     brule_dfa = (\<lambda>a b. 1), brule_dfb = (\<lambda>a b. - 1),
     brule_d2aa = (\<lambda>a b. 0), brule_d2ab = (\<lambda>a b. 0), brule_d2bb = (\<lambda>a b. 0),
     brule_forward_dot = None\<rparr>"

definition DivRule_forward_dot :: "nat \<Rightarrow> ADState \<Rightarrow> ADState" where
  "DivRule_forward_dot n st =
     (let a = input_at st n 0; b = input_at st n 1;
          d = node_value (heap st b)
      in touch_val n
           (set_dot n (if d \<noteq> 0
                       then (dot (heap st a) * d - node_value (heap st a) * dot (heap st b))
                            / (d * d)
                       else 0) st))"

definition DivRule :: BinaryRule where
  "DivRule = \<lparr>brule_f = (\<lambda>a b. safe_div a b),
     brule_dfa = (\<lambda>a b. if b \<noteq> 0 then 1 / b else 0),
     brule_dfb = (\<lambda>a b. if b \<noteq> 0 then - a / (b * b) else 0),
     brule_d2aa = (\<lambda>a b. 0),
     brule_d2ab = (\<lambda>a b. if b \<noteq> 0 then - 1 / (b * b) else 0),
     brule_d2bb = (\<lambda>a b. if b \<noteq> 0 then 2 * a / (b * b * b) else 0),
     brule_forward_dot = Some DivRule_forward_dot\<rparr>"

subsection \<open>N-ary rules: common entry\<close>

text \<open>
  Every n-ary pass starts with \<^verbatim>\<open>if (!_nary_ok(n)) return;\<close> and then
  dereferences all handles of \<^verbatim>\<open>n.inputs\<close>; the body runs on the resolved
  addresses.
\<close>

definition nary_pass ::
  "(nat list \<Rightarrow> nat \<Rightarrow> ADState \<Rightarrow> ADState) \<Rightarrow> nat \<Rightarrow> ADState \<Rightarrow> error + ADState" where
  "nary_pass body n st =
     (if \<not> nary_ok (heap st n) then Inr st
      else case deref_all (inputs (heap st n)) of
             Inl e \<Rightarrow> Inl e
           | Inr as \<Rightarrow> Inr (body as n st))"

subsection \<open>N-ary sum\<close>

definition Add_forward_body :: "nat list \<Rightarrow> nat \<Rightarrow> ADState \<Rightarrow> ADState" where
  "Add_forward_body as n st =
     (let s = foldl (\<lambda>s a. s + node_value (heap st a)) 0 as
      in set_value n s st)"

definition Add_forward_dot_body :: "nat list \<Rightarrow> nat \<Rightarrow> ADState \<Rightarrow> ADState" where
  "Add_forward_dot_body as n st =
     (let sd = foldl (\<lambda>sd a. sd + dot (heap st a)) 0 as
      in touch_val n (set_dot n sd st))"

definition Add_backward_body :: "nat list \<Rightarrow> nat \<Rightarrow> ADState \<Rightarrow> ADState" where
  "Add_backward_body as n st =
     fold (\<lambda>a s. acc_grad a (gradient (heap s n)) s) as st"

definition Add_hvp_backward_body :: "nat list \<Rightarrow> nat \<Rightarrow> ADState \<Rightarrow> ADState" where
  "Add_hvp_backward_body as n st =
     fold (\<lambda>a s. let s1 = acc_grad a (gradient (heap s n)) s
                 in acc_gdot a (grad_dot (heap s1 n)) s1) as st"

subsection \<open>N-ary product\<close>

text \<open>
  \<^verbatim>\<open>build_prefix_suffix\<close>: both tables have \<open>m + 1\<close> entries, initially 1;
  \<open>pre\<close> is filled upwards and \<open>suf\<close> downwards.
\<close>

definition build_prefix :: "real list \<Rightarrow> real list" where
  "build_prefix vals =
     fold (\<lambda>i pre. pre[Suc i := pre ! i * vals ! i]) [0..<length vals]
          (replicate (length vals + 1) 1)"

definition build_suffix :: "real list \<Rightarrow> real list" where
  "build_suffix vals =
     fold (\<lambda>i suf. suf[i := suf ! Suc i * vals ! i]) (rev [0..<length vals])
          (replicate (length vals + 1) 1)"

definition build_prefix_suffix :: "real list \<Rightarrow> real list \<times> real list" where
  "build_prefix_suffix vals = (build_prefix vals, build_suffix vals)"

definition Multiply_forward_body :: "nat list \<Rightarrow> nat \<Rightarrow> ADState \<Rightarrow> ADState" where
  "Multiply_forward_body as n st =
     (let p = foldl (\<lambda>p a. p * node_value (heap st a)) 1 as
      in set_value n p st)"

definition Multiply_forward_dot_body :: "nat list \<Rightarrow> nat \<Rightarrow> ADState \<Rightarrow> ADState" where
  "Multiply_forward_dot_body as n st =
     (let m = length as;
          vals = map (\<lambda>a. node_value (heap st a)) as;
          dots = map (\<lambda>a. dot (heap st a)) as;
          (pre, suf) = build_prefix_suffix vals;
          ds = foldl (\<lambda>ds i. ds + dots ! i * pre ! i * suf ! (i + 1)) 0 [0..<m]
      in touch_val n (set_dot n ds st))"

definition Multiply_backward_body :: "nat list \<Rightarrow> nat \<Rightarrow> ADState \<Rightarrow> ADState" where
  "Multiply_backward_body as n st =
     (let m = length as;
          vals = map (\<lambda>a. node_value (heap st a)) as;
          (pre, suf) = build_prefix_suffix vals
      in fold (\<lambda>i s. let P_wo_i = pre ! i * suf ! (i + 1)
                     in acc_grad (as ! i) (gradient (heap s n) * P_wo_i) s) [0..<m] st)"

text \<open>
  The product of the segment strictly between positions \<open>a\<close> and \<open>b\<close>, with the
  early exit once it is zero: \<^verbatim>\<open>for (t = a + 1; t < b; ++t)\<close>.
\<close>

function mid_prod_loop :: "real list \<Rightarrow> nat \<Rightarrow> nat \<Rightarrow> real \<Rightarrow> real" where
  "mid_prod_loop vals t b mid_prod =
     (if t < b
      then (let mp = mid_prod * vals ! t
            in if mp = 0 then mp else mid_prod_loop vals (t + 1) b mp)
      else mid_prod)"
  by pat_completeness auto
termination
  by (relation "measure (\<lambda>(vals, t, b, mid_prod). b - t)") auto

declare mid_prod_loop.simps [simp del]

definition excluded_pair :: "real list \<Rightarrow> real list \<Rightarrow> real list \<Rightarrow> nat \<Rightarrow> nat \<Rightarrow> real" where
  "excluded_pair vals pre suf i k =
     (let a = (if i < k then i else k);
          b = (if i < k then k else i);
          mid_prod = mid_prod_loop vals (a + 1) b 1;
          left = pre ! a;
          right = suf ! (b + 1)
      in left * mid_prod * right)"

definition sum_term :: "real list \<Rightarrow> real list \<Rightarrow> real list \<Rightarrow> real list \<Rightarrow> nat \<Rightarrow> real" where
  "sum_term vals dots pre suf i =
     foldl (\<lambda>acc k. if k = i then acc
                    else acc + dots ! k * excluded_pair vals pre suf i k)
           0 [0..<length vals]"

text \<open>The fast path of \<^verbatim>\<open>hvp_backward\<close> for two factors, \<^verbatim>\<open>if (m == 2) { ... return; }\<close>.\<close>

definition Multiply_hvp_binary :: "nat list \<Rightarrow> nat \<Rightarrow> ADState \<Rightarrow> ADState" where
  "Multiply_hvp_binary as n st =
     (let a = as ! 0; b = as ! 1;
          aval = node_value (heap st a); bval = node_value (heap st b);
          adot = dot (heap st a); bdot = dot (heap st b);
          ybar = gradient (heap st n); ybdot = grad_dot (heap st n);
          st1 = zero_grad a st;
          st2 = zero_grad b st1;
          st3 = zero_gdot a st2;
          st4 = zero_gdot b st3;
          st5 = add_grad a (ybar * bval) st4;
          st6 = add_grad b (ybar * aval) st5;
          st7 = add_gdot a (ybdot * bval + ybar * bdot) st6
      in add_gdot b (ybdot * aval + ybar * adot) st7)"

text \<open>The general case of \<^verbatim>\<open>hvp_backward\<close>.\<close>

definition Multiply_hvp_general :: "nat list \<Rightarrow> nat \<Rightarrow> ADState \<Rightarrow> ADState" where
  "Multiply_hvp_general as n st =
     (let m = length as;
          vals = map (\<lambda>a. node_value (heap st a)) as;
          dots = map (\<lambda>a. dot (heap st a)) as;
          (pre, suf) = build_prefix_suffix vals
      in fold (\<lambda>i s.
           let P_wo_i = pre ! i * suf ! (i + 1);
               sum_t = sum_term vals dots pre suf i;
               s1 = zero_grad (as ! i) s;
               s2 = zero_gdot (as ! i) s1;
               s3 = add_grad (as ! i) (gradient (heap s2 n) * P_wo_i) s2
           in add_gdot (as ! i)
                (grad_dot (heap s3 n) * P_wo_i + gradient (heap s3 n) * sum_t) s3)
         [0..<m] st)"

definition Multiply_hvp_backward_body :: "nat list \<Rightarrow> nat \<Rightarrow> ADState \<Rightarrow> ADState" where
  "Multiply_hvp_backward_body as n st =
     (let m = length as
      in if m = 2 then Multiply_hvp_binary as n st
         else Multiply_hvp_general as n st)"

subsection \<open>Softmax (single component)\<close>

text \<open>
  The running maximum starts at minus infinity in the C++, so the first
  comparison \<^verbatim>\<open>x[0] > xmax\<close> always succeeds; the loop of the model starts from
  \<open>x[0]\<close> (the list is not empty once \<^verbatim>\<open>_nary_ok\<close> has passed).
\<close>

definition softmax_xmax :: "real list \<Rightarrow> real" where
  "softmax_xmax x = foldl (\<lambda>xmax xi. if xi > xmax then xi else xmax) (x ! 0) x"

text \<open>The normalised weights \<open>y\<close> of the tangent and reverse passes.\<close>

definition softmax_y :: "real list \<Rightarrow> real list" where
  "softmax_y x =
     (let xmax = softmax_xmax x;
          y = map (\<lambda>xi. exp (xi - xmax)) x;
          Z = foldl (\<lambda>Z yi. Z + yi) 0 y;
          Z1 = (if Z \<le> 0 then 1 else Z)
      in map (\<lambda>yi. yi / Z1) y)"

definition Softmax_forward_body :: "nat list \<Rightarrow> nat \<Rightarrow> ADState \<Rightarrow> ADState" where
  "Softmax_forward_body as n st =
     (let x = map (\<lambda>a. node_value (heap st a)) as;
          xmax = softmax_xmax x;
          Z = foldl (\<lambda>Z xi. Z + exp (xi - xmax)) 0 x;
          yi = exp (x ! 0 - xmax) / (if Z > 0 then Z else 1)
      in set_value n yi st)"

definition Softmax_forward_dot_body :: "nat list \<Rightarrow> nat \<Rightarrow> ADState \<Rightarrow> ADState" where
  "Softmax_forward_dot_body as n st =
     (let m = length as;
          x = map (\<lambda>a. node_value (heap st a)) as;
          xd = map (\<lambda>a. dot (heap st a)) as;
          y = softmax_y x;
          yi = y ! 0;
          sdot = foldl (\<lambda>sdot j. sdot + y ! j * xd ! j) 0 [0..<m];
          d = yi * (xd ! 0 - sdot)
      in touch_val n (set_dot n d st))"

definition Softmax_backward_body :: "nat list \<Rightarrow> nat \<Rightarrow> ADState \<Rightarrow> ADState" where
  "Softmax_backward_body as n st =
     (let m = length as;
          x = map (\<lambda>a. node_value (heap st a)) as;
          y = softmax_y x;
          yi = y ! 0;
          w = gradient (heap st n)
      in fold (\<lambda>k s. let dfk = yi * (if k = 0 then 1 else 0) - yi * y ! k
                     in acc_grad (as ! k) (w * dfk) s) [0..<m] st)"

definition Softmax_hvp_backward_body :: "nat list \<Rightarrow> nat \<Rightarrow> ADState \<Rightarrow> ADState" where
  "Softmax_hvp_backward_body as n st =
     (let m = length as;
          x = map (\<lambda>a. node_value (heap st a)) as;
          xd = map (\<lambda>a. dot (heap st a)) as;
          y = softmax_y x;
          yi = y ! 0;
          w = gradient (heap st n);
          wd = grad_dot (heap st n);
          sdot = foldl (\<lambda>sdot j. sdot + y ! j * xd ! j) 0 [0..<m]
      in fold (\<lambda>k s.
           let dfk = yi * (if k = 0 then 1 else 0) - yi * y ! k;
               Hv_k = (if k = 0 then yi * (1 - 2 * yi) * (xd ! 0 - sdot)
                       else yi * y ! k * (2 * sdot - xd ! 0 - xd ! k));
               s1 = zero_grad (as ! k) s;
               s2 = zero_gdot (as ! k) s1;
               s3 = add_grad (as ! k) (w * dfk) s2
           in add_gdot (as ! k) (wd * dfk + w * Hv_k) s3) [0..<m] st)"

subsection \<open>Max (binary, nonsmooth)\<close>

definition Max_forward :: "nat \<Rightarrow> ADState \<Rightarrow> ADState" where
  "Max_forward n st =
     (if \<not> binary_ok (heap st n) then st
      else let a = node_value (heap st (input_at st n 0));
               b = node_value (heap st (input_at st n 1))
           in set_value n (if a \<ge> b then a else b) st)"

definition Max_forward_dot :: "nat \<Rightarrow> ADState \<Rightarrow> ADState" where
  "Max_forward_dot n st =
     (if \<not> binary_ok (heap st n) then st
      else let a = input_at st n 0; b = input_at st n 1
           in touch_val n
                (set_dot n (if node_value (heap st a) \<ge> node_value (heap st b)
                            then dot (heap st a) else dot (heap st b)) st))"

definition Max_backward :: "nat \<Rightarrow> ADState \<Rightarrow> ADState" where
  "Max_backward n st =
     (if \<not> binary_ok (heap st n) then st
      else let a = input_at st n 0; b = input_at st n 1
           in if node_value (heap st a) \<ge> node_value (heap st b)
              then acc_grad a (gradient (heap st n)) st
              else acc_grad b (gradient (heap st n)) st)"

definition Max_hvp_backward :: "nat \<Rightarrow> ADState \<Rightarrow> ADState" where
  "Max_hvp_backward n st =
     (if \<not> binary_ok (heap st n) then st
      else let a = input_at st n 0; b = input_at st n 1
           in if node_value (heap st a) \<ge> node_value (heap st b)
              then (let st1 = acc_grad a (gradient (heap st n)) st
                    in acc_gdot a (grad_dot (heap st1 n)) st1)
              else (let st1 = acc_grad b (gradient (heap st n)) st
                    in acc_gdot b (grad_dot (heap st1 n)) st1))"

subsection \<open>The trait table\<close>

text \<open>
  \<^verbatim>\<open>OpTraits<Op>::forward\<close> and its three siblings, as functions of the tag.
  The last equation of each is the primary template, which every tag without a
  specialisation selects.
\<close>

fun OpTraits_forward :: "Operator \<Rightarrow> nat \<Rightarrow> ADState \<Rightarrow> error + ADState" where
  "OpTraits_forward cte n st = Inr (touch_val n st)"
| "OpTraits_forward Var n st = Inr (touch_val n st)"
| "OpTraits_forward Sin n st = Inr (UnaryOp_forward SinRule n st)"
| "OpTraits_forward Cos n st = Inr (UnaryOp_forward CosRule n st)"
| "OpTraits_forward Exp n st = Inr (UnaryOp_forward ExpRule n st)"
| "OpTraits_forward Log n st = Inr (UnaryOp_forward LogRule n st)"
| "OpTraits_forward Tan n st = Inr (UnaryOp_forward TanRule n st)"
| "OpTraits_forward Tanh n st = Inr (UnaryOp_forward TanhRule n st)"
| "OpTraits_forward Silu n st = Inr (UnaryOp_forward SiLURule n st)"
| "OpTraits_forward Gelu n st = Inr (UnaryOp_forward GELURule n st)"
| "OpTraits_forward Relu n st = Inr (UnaryOp_forward ReluRule n st)"
| "OpTraits_forward Softmax n st = nary_pass Softmax_forward_body n st"
| "OpTraits_forward Subtract n st = Inr (BinaryOp_forward SubRule n st)"
| "OpTraits_forward Divide n st = Inr (BinaryOp_forward DivRule n st)"
| "OpTraits_forward Add n st = nary_pass Add_forward_body n st"
| "OpTraits_forward Multiply n st = nary_pass Multiply_forward_body n st"
| "OpTraits_forward MaxOp n st = Inr (Max_forward n st)"
| "OpTraits_forward (OtherOp k) n st = Inr st"

fun OpTraits_forward_dot :: "Operator \<Rightarrow> nat \<Rightarrow> ADState \<Rightarrow> error + ADState" where
  "OpTraits_forward_dot cte n st = Inr (touch_val n (touch_dot n st))"
| "OpTraits_forward_dot Var n st = Inr (touch_val n (touch_dot n st))"
| "OpTraits_forward_dot Sin n st = Inr (UnaryOp_forward_dot SinRule n st)"
| "OpTraits_forward_dot Cos n st = Inr (UnaryOp_forward_dot CosRule n st)"
| "OpTraits_forward_dot Exp n st = Inr (UnaryOp_forward_dot ExpRule n st)"
| "OpTraits_forward_dot Log n st = Inr (UnaryOp_forward_dot LogRule n st)"
| "OpTraits_forward_dot Tan n st = Inr (UnaryOp_forward_dot TanRule n st)"
| "OpTraits_forward_dot Tanh n st = Inr (UnaryOp_forward_dot TanhRule n st)"
| "OpTraits_forward_dot Silu n st = Inr (UnaryOp_forward_dot SiLURule n st)"
| "OpTraits_forward_dot Gelu n st = Inr (UnaryOp_forward_dot GELURule n st)"
| "OpTraits_forward_dot Relu n st = Inr (UnaryOp_forward_dot ReluRule n st)"
| "OpTraits_forward_dot Softmax n st = nary_pass Softmax_forward_dot_body n st"
| "OpTraits_forward_dot Subtract n st = Inr (BinaryOp_forward_dot SubRule n st)"
| "OpTraits_forward_dot Divide n st = Inr (BinaryOp_forward_dot DivRule n st)"
| "OpTraits_forward_dot Add n st = nary_pass Add_forward_dot_body n st"
| "OpTraits_forward_dot Multiply n st = nary_pass Multiply_forward_dot_body n st"
| "OpTraits_forward_dot MaxOp n st = Inr (Max_forward_dot n st)"
| "OpTraits_forward_dot (OtherOp k) n st = Inr st"

fun OpTraits_backward :: "Operator \<Rightarrow> nat \<Rightarrow> ADState \<Rightarrow> error + ADState" where
  "OpTraits_backward cte n st = Inr st"
| "OpTraits_backward Var n st = Inr st"
| "OpTraits_backward Sin n st = Inr (UnaryOp_backward SinRule n st)"
| "OpTraits_backward Cos n st = Inr (UnaryOp_backward CosRule n st)"
| "OpTraits_backward Exp n st = Inr (UnaryOp_backward ExpRule n st)"
| "OpTraits_backward Log n st = Inr (UnaryOp_backward LogRule n st)"
| "OpTraits_backward Tan n st = Inr (UnaryOp_backward TanRule n st)"
| "OpTraits_backward Tanh n st = Inr (UnaryOp_backward TanhRule n st)"
| "OpTraits_backward Silu n st = Inr (UnaryOp_backward SiLURule n st)"
| "OpTraits_backward Gelu n st = Inr (UnaryOp_backward GELURule n st)"
| "OpTraits_backward Relu n st = Inr (UnaryOp_backward ReluRule n st)"
| "OpTraits_backward Softmax n st = nary_pass Softmax_backward_body n st"
| "OpTraits_backward Subtract n st = Inr (BinaryOp_backward SubRule n st)"
| "OpTraits_backward Divide n st = Inr (BinaryOp_backward DivRule n st)"
| "OpTraits_backward Add n st = nary_pass Add_backward_body n st"
| "OpTraits_backward Multiply n st = nary_pass Multiply_backward_body n st"
| "OpTraits_backward MaxOp n st = Inr (Max_backward n st)"
| "OpTraits_backward (OtherOp k) n st = Inr st"

fun OpTraits_hvp_backward :: "Operator \<Rightarrow> nat \<Rightarrow> ADState \<Rightarrow> error + ADState" where
  "OpTraits_hvp_backward cte n st = Inr st"
| "OpTraits_hvp_backward Var n st = Inr st"
| "OpTraits_hvp_backward Sin n st = Inr (UnaryOp_hvp_backward SinRule n st)"
| "OpTraits_hvp_backward Cos n st = Inr (UnaryOp_hvp_backward CosRule n st)"
| "OpTraits_hvp_backward Exp n st = Inr (UnaryOp_hvp_backward ExpRule n st)"
| "OpTraits_hvp_backward Log n st = Inr (UnaryOp_hvp_backward LogRule n st)"
| "OpTraits_hvp_backward Tan n st = Inr (UnaryOp_hvp_backward TanRule n st)"
| "OpTraits_hvp_backward Tanh n st = Inr (UnaryOp_hvp_backward TanhRule n st)"
| "OpTraits_hvp_backward Silu n st = Inr (UnaryOp_hvp_backward SiLURule n st)"
| "OpTraits_hvp_backward Gelu n st = Inr (UnaryOp_hvp_backward GELURule n st)"
| "OpTraits_hvp_backward Relu n st = Inr (UnaryOp_hvp_backward ReluRule n st)"
| "OpTraits_hvp_backward Softmax n st = nary_pass Softmax_hvp_backward_body n st"
| "OpTraits_hvp_backward Subtract n st = Inr (BinaryOp_hvp_backward SubRule n st)"
| "OpTraits_hvp_backward Divide n st = Inr (BinaryOp_hvp_backward DivRule n st)"
| "OpTraits_hvp_backward Add n st = nary_pass Add_hvp_backward_body n st"
| "OpTraits_hvp_backward Multiply n st = nary_pass Multiply_hvp_backward_body n st"
| "OpTraits_hvp_backward MaxOp n st = Inr (Max_hvp_backward n st)"
| "OpTraits_hvp_backward (OtherOp k) n st = Inr st"

fun op_name :: "Operator \<Rightarrow> string" where
  "op_name Add = ''add''"
| "op_name Subtract = ''subtract''"
| "op_name Multiply = ''multiply''"
| "op_name Divide = ''divide''"
| "op_name Sin = ''sin''"
| "op_name Cos = ''cos''"
| "op_name Tan = ''tan''"
| "op_name Exp = ''exp''"
| "op_name Log = ''log''"
| "op_name MaxOp = ''max''"
| "op_name Var = ''var''"
| "op_name cte = ''cte''"
| "op_name Tanh = ''tanh''"
| "op_name Silu = ''silu''"
| "op_name Gelu = ''gelu''"
| "op_name Softmax = ''softmax''"
| "op_name Relu = ''relu''"
| "op_name (OtherOp k) = ''unknown''"

subsection \<open>Reading a reverse accumulator\<close>

text \<open>
  What an accumulator counts as before a reverse pass adds into it: its stored
  number if the tag is the current counter, and zero otherwise.
\<close>

definition live_grad :: "ADState \<Rightarrow> nat \<Rightarrow> real" where
  "live_grad st a =
     (if grad_epoch (heap st a) = cur_grad_epoch (graph st) then gradient (heap st a) else 0)"

definition live_gdot :: "ADState \<Rightarrow> nat \<Rightarrow> real" where
  "live_gdot st a =
     (if gdot_epoch (heap st a) = cur_gdot_epoch (graph st) then grad_dot (heap st a) else 0)"

subsection \<open>Vocabulary of the properties\<close>

text \<open>The nodes that the handles of node \<open>n\<close> point to.\<close>

definition input_set :: "ADState \<Rightarrow> nat \<Rightarrow> nat set" where
  "input_set st n = {a. Some a \<in> set (inputs (heap st n))}"

text \<open>A reverse accumulator is live when its tag is the current counter of its pass.\<close>

definition grad_live :: "ADState \<Rightarrow> nat \<Rightarrow> bool" where
  "grad_live st a \<longleftrightarrow> grad_epoch (heap st a) = cur_grad_epoch (graph st)"

definition gdot_live :: "ADState \<Rightarrow> nat \<Rightarrow> bool" where
  "gdot_live st a \<longleftrightarrow> gdot_epoch (heap st a) = cur_gdot_epoch (graph st)"

text \<open>
  \<open>adj_step A st st'\<close>: from \<open>st\<close> to \<open>st'\<close> nothing changed but the reverse
  accumulators (gradient, grad_dot and their tags) of nodes in \<open>A\<close>, and no
  accumulator that was live became stale.
\<close>

definition adj_step :: "nat set \<Rightarrow> ADState \<Rightarrow> ADState \<Rightarrow> bool" where
  "adj_step A st st' \<longleftrightarrow>
     graph st' = graph st
   \<and> (\<forall>c. c \<notin> A \<longrightarrow> heap st' c = heap st c)
   \<and> (\<forall>c. op (heap st' c) = op (heap st c)
         \<and> inputs (heap st' c) = inputs (heap st c)
         \<and> node_value (heap st' c) = node_value (heap st c)
         \<and> dot (heap st' c) = dot (heap st c)
         \<and> val_epoch (heap st' c) = val_epoch (heap st c)
         \<and> dot_epoch (heap st' c) = dot_epoch (heap st c))
   \<and> (\<forall>c. grad_live st c \<longrightarrow> grad_live st' c)
   \<and> (\<forall>c. gdot_live st c \<longrightarrow> gdot_live st' c)"

text \<open>The input that Max routes to: the first one unless the second is strictly larger.\<close>

definition max_winner :: "ADState \<Rightarrow> nat \<Rightarrow> nat" where
  "max_winner st n =
     (if node_value (heap st (input_at st n 0)) \<ge> node_value (heap st (input_at st n 1))
      then input_at st n 0 else input_at st n 1)"

text \<open>The arity predicate that the rule of each operator tests on entry.\<close>

fun arity_ok :: "Operator \<Rightarrow> ADNode \<Rightarrow> bool" where
  "arity_ok Sin nd = unary_ok nd"
| "arity_ok Cos nd = unary_ok nd"
| "arity_ok Tan nd = unary_ok nd"
| "arity_ok Exp nd = unary_ok nd"
| "arity_ok Log nd = unary_ok nd"
| "arity_ok Tanh nd = unary_ok nd"
| "arity_ok Silu nd = unary_ok nd"
| "arity_ok Gelu nd = unary_ok nd"
| "arity_ok Relu nd = unary_ok nd"
| "arity_ok Subtract nd = binary_ok nd"
| "arity_ok Divide nd = binary_ok nd"
| "arity_ok MaxOp nd = binary_ok nd"
| "arity_ok Add nd = nary_ok nd"
| "arity_ok Multiply nd = nary_ok nd"
| "arity_ok Softmax nd = nary_ok nd"
| "arity_ok cte nd = True"
| "arity_ok Var nd = True"
| "arity_ok (OtherOp k) nd = True"

text \<open>
  The nodes whose accumulators the reverse passes of an operator add into: none
  for the nullary rules and the primary template, the winner for Max, every
  input for the other rules.
\<close>

fun reverse_targets :: "Operator \<Rightarrow> ADState \<Rightarrow> nat \<Rightarrow> nat set" where
  "reverse_targets cte st n = {}"
| "reverse_targets Var st n = {}"
| "reverse_targets (OtherOp k) st n = {}"
| "reverse_targets MaxOp st n = {max_winner st n}"
| "reverse_targets opr st n = input_set st n"

text \<open>The forward passes of every specialised tag write the slot of the visited node.\<close>

fun writes_own_slot :: "Operator \<Rightarrow> bool" where
  "writes_own_slot (OtherOp k) = False"
| "writes_own_slot opr = True"

text \<open>
  \<open>value_step n st st'\<close>: nothing changed but the value slot of node \<open>n\<close> and its
  tag; \<open>tangent_step n st st'\<close>: nothing changed but the tangent slot of node \<open>n\<close>
  and the tags of its value and tangent.
\<close>

definition value_step :: "nat \<Rightarrow> ADState \<Rightarrow> ADState \<Rightarrow> bool" where
  "value_step n st st' \<longleftrightarrow>
     graph st' = graph st
   \<and> (\<forall>c. c \<noteq> n \<longrightarrow> heap st' c = heap st c)
   \<and> (\<exists>v e. heap st' n = (heap st n)\<lparr>node_value := v, val_epoch := e\<rparr>)"

definition tangent_step :: "nat \<Rightarrow> ADState \<Rightarrow> ADState \<Rightarrow> bool" where
  "tangent_step n st st' \<longleftrightarrow>
     graph st' = graph st
   \<and> (\<forall>c. c \<noteq> n \<longrightarrow> heap st' c = heap st c)
   \<and> (\<exists>d e e'. heap st' n = (heap st n)\<lparr>dot := d, val_epoch := e, dot_epoch := e'\<rparr>)"

text \<open>The rules that the header plugs into the unary template.\<close>

definition unary_rules :: "UnaryRule set" where
  "unary_rules = {SinRule, CosRule, ExpRule, LogRule, TanRule, TanhRule, SiLURule, GELURule,
     ReluRule}"

text \<open>
  One round of a reverse rule on the input \<open>a\<close>: ensure-zero on its gradient and
  grad_dot accumulators, then \<open>gradient += x\<close> and \<open>grad_dot += y\<close>.
\<close>

definition hvp_acc :: "nat \<Rightarrow> real \<Rightarrow> real \<Rightarrow> ADState \<Rightarrow> ADState" where
  "hvp_acc a x y s = add_gdot a y (add_grad a x (zero_gdot a (zero_grad a s)))"

subsection \<open>The passes over a graph\<close>




definition begin_grad_pass :: "ADState \<Rightarrow> ADState" where
  "begin_grad_pass st = st\<lparr>graph := (graph st)\<lparr>cur_grad_epoch := cur_grad_epoch (graph st) + 1\<rparr>\<rparr>"





















subsection \<open>Example graphs\<close>

text \<open>
  Small concrete states on which the theorems below are instantiated. All
  counters of the graph are 1; a leaf has stale tags, and the visited node
  carries a live adjoint.
\<close>

definition ex_graph :: ADGraph where
  "ex_graph = \<lparr>cur_val_epoch = 1, cur_dot_epoch = 1, cur_grad_epoch = 1, cur_gdot_epoch = 1\<rparr>"

definition leaf :: "real \<Rightarrow> real \<Rightarrow> ADNode" where
  "leaf v d = \<lparr>op = Var, inputs = [], node_value = v, dot = d, gradient = 0, grad_dot = 0,
     val_epoch = 0, dot_epoch = 0, grad_epoch = 0, gdot_epoch = 0\<rparr>"

definition visited :: "Operator \<Rightarrow> nat option list \<Rightarrow> real \<Rightarrow> real \<Rightarrow> ADNode" where
  "visited opr hs w wd = \<lparr>op = opr, inputs = hs, node_value = 0, dot = 0, gradient = w,
     grad_dot = wd, val_epoch = 0, dot_epoch = 0, grad_epoch = 1, gdot_epoch = 1\<rparr>"

text \<open>Node 2 applies \<open>opr\<close> to the leaves 0 (value 6, tangent 1) and 1 (value 3, tangent 2).\<close>

definition ex_binary :: "Operator \<Rightarrow> ADState" where
  "ex_binary opr = \<lparr>heap = (\<lambda>_. leaf 0 0)
       (0 := leaf 6 1, 1 := leaf 3 2, 2 := visited opr [Some 0, Some 1] 1 5),
     graph = ex_graph\<rparr>"

text \<open>Node 1 applies \<open>opr\<close> to the single leaf 0 (value 0, tangent 1).\<close>

definition ex_unary :: "Operator \<Rightarrow> ADState" where
  "ex_unary opr = \<lparr>heap = (\<lambda>_. leaf 0 0)
       (0 := leaf 0 1, 1 := visited opr [Some 0] 1 5),
     graph = ex_graph\<rparr>"

text \<open>Node 2 applies \<open>opr\<close> to leaf 0 and to a null handle.\<close>

definition ex_null :: "Operator \<Rightarrow> ADState" where
  "ex_null opr = \<lparr>heap = (\<lambda>_. leaf 0 0)
       (0 := leaf 6 1, 2 := visited opr [Some 0, None] 1 5),
     graph = ex_graph\<rparr>"

text \<open>
  Node 3 is the product of the leaves 0 (value 2, tangent 1), 1 (value 0,
  tangent 0) and 2 (value 5, tangent 1).
\<close>

definition ex_triple :: ADState where
  "ex_triple = \<lparr>heap = (\<lambda>_. leaf 0 0)
       (0 := leaf 2 1, 1 := leaf 0 0, 2 := leaf 5 1,
        3 := visited Multiply [Some 0, Some 1, Some 2] 1 0),
     graph = ex_graph\<rparr>"














section \<open>Properties\<close>

subsection \<open>Basic facts\<close>

lemmas slot_defs = upd_node_def set_value_def set_dot_def touch_val_def touch_dot_def
  zero_grad_def zero_gdot_def add_grad_def add_gdot_def acc_grad_def acc_gdot_def
  touch_epoch_def set_epoch_value_def ensure_epoch_zero_def

lemma set_value_fields:
  "graph (set_value a v st) = graph st"
  "c \<noteq> a \<Longrightarrow> heap (set_value a v st) c = heap st c"
  "op (heap (set_value a v st) c) = op (heap st c)"
  "inputs (heap (set_value a v st) c) = inputs (heap st c)"
  "node_value (heap (set_value a v st) c) = (if c = a then v else node_value (heap st c))"
  "dot (heap (set_value a v st) c) = dot (heap st c)"
  "gradient (heap (set_value a v st) c) = gradient (heap st c)"
  "grad_dot (heap (set_value a v st) c) = grad_dot (heap st c)"
  "val_epoch (heap (set_value a v st) c) = (if c = a then cur_val_epoch (graph st) else val_epoch (heap st c))"
  "dot_epoch (heap (set_value a v st) c) = dot_epoch (heap st c)"
  "grad_epoch (heap (set_value a v st) c) = grad_epoch (heap st c)"
  "gdot_epoch (heap (set_value a v st) c) = gdot_epoch (heap st c)"
  by (simp_all add: slot_defs live_grad_def live_gdot_def)

lemma set_dot_fields:
  "graph (set_dot a v st) = graph st"
  "c \<noteq> a \<Longrightarrow> heap (set_dot a v st) c = heap st c"
  "op (heap (set_dot a v st) c) = op (heap st c)"
  "inputs (heap (set_dot a v st) c) = inputs (heap st c)"
  "node_value (heap (set_dot a v st) c) = node_value (heap st c)"
  "dot (heap (set_dot a v st) c) = (if c = a then v else dot (heap st c))"
  "gradient (heap (set_dot a v st) c) = gradient (heap st c)"
  "grad_dot (heap (set_dot a v st) c) = grad_dot (heap st c)"
  "val_epoch (heap (set_dot a v st) c) = val_epoch (heap st c)"
  "dot_epoch (heap (set_dot a v st) c) = (if c = a then cur_dot_epoch (graph st) else dot_epoch (heap st c))"
  "grad_epoch (heap (set_dot a v st) c) = grad_epoch (heap st c)"
  "gdot_epoch (heap (set_dot a v st) c) = gdot_epoch (heap st c)"
  by (simp_all add: slot_defs live_grad_def live_gdot_def)

lemma touch_val_fields:
  "graph (touch_val a st) = graph st"
  "c \<noteq> a \<Longrightarrow> heap (touch_val a st) c = heap st c"
  "op (heap (touch_val a st) c) = op (heap st c)"
  "inputs (heap (touch_val a st) c) = inputs (heap st c)"
  "node_value (heap (touch_val a st) c) = node_value (heap st c)"
  "dot (heap (touch_val a st) c) = dot (heap st c)"
  "gradient (heap (touch_val a st) c) = gradient (heap st c)"
  "grad_dot (heap (touch_val a st) c) = grad_dot (heap st c)"
  "val_epoch (heap (touch_val a st) c) = (if c = a then cur_val_epoch (graph st) else val_epoch (heap st c))"
  "dot_epoch (heap (touch_val a st) c) = dot_epoch (heap st c)"
  "grad_epoch (heap (touch_val a st) c) = grad_epoch (heap st c)"
  "gdot_epoch (heap (touch_val a st) c) = gdot_epoch (heap st c)"
  by (simp_all add: slot_defs live_grad_def live_gdot_def)

lemma touch_dot_fields:
  "graph (touch_dot a st) = graph st"
  "c \<noteq> a \<Longrightarrow> heap (touch_dot a st) c = heap st c"
  "op (heap (touch_dot a st) c) = op (heap st c)"
  "inputs (heap (touch_dot a st) c) = inputs (heap st c)"
  "node_value (heap (touch_dot a st) c) = node_value (heap st c)"
  "dot (heap (touch_dot a st) c) = dot (heap st c)"
  "gradient (heap (touch_dot a st) c) = gradient (heap st c)"
  "grad_dot (heap (touch_dot a st) c) = grad_dot (heap st c)"
  "val_epoch (heap (touch_dot a st) c) = val_epoch (heap st c)"
  "dot_epoch (heap (touch_dot a st) c) = (if c = a then cur_dot_epoch (graph st) else dot_epoch (heap st c))"
  "grad_epoch (heap (touch_dot a st) c) = grad_epoch (heap st c)"
  "gdot_epoch (heap (touch_dot a st) c) = gdot_epoch (heap st c)"
  by (simp_all add: slot_defs live_grad_def live_gdot_def)

lemma zero_grad_fields:
  "graph (zero_grad a st) = graph st"
  "c \<noteq> a \<Longrightarrow> heap (zero_grad a st) c = heap st c"
  "op (heap (zero_grad a st) c) = op (heap st c)"
  "inputs (heap (zero_grad a st) c) = inputs (heap st c)"
  "node_value (heap (zero_grad a st) c) = node_value (heap st c)"
  "dot (heap (zero_grad a st) c) = dot (heap st c)"
  "gradient (heap (zero_grad a st) c) = (if c = a then live_grad st a else gradient (heap st c))"
  "grad_dot (heap (zero_grad a st) c) = grad_dot (heap st c)"
  "val_epoch (heap (zero_grad a st) c) = val_epoch (heap st c)"
  "dot_epoch (heap (zero_grad a st) c) = dot_epoch (heap st c)"
  "grad_epoch (heap (zero_grad a st) c) = (if c = a then cur_grad_epoch (graph st) else grad_epoch (heap st c))"
  "gdot_epoch (heap (zero_grad a st) c) = gdot_epoch (heap st c)"
  by (simp_all add: slot_defs live_grad_def live_gdot_def)

lemma zero_gdot_fields:
  "graph (zero_gdot a st) = graph st"
  "c \<noteq> a \<Longrightarrow> heap (zero_gdot a st) c = heap st c"
  "op (heap (zero_gdot a st) c) = op (heap st c)"
  "inputs (heap (zero_gdot a st) c) = inputs (heap st c)"
  "node_value (heap (zero_gdot a st) c) = node_value (heap st c)"
  "dot (heap (zero_gdot a st) c) = dot (heap st c)"
  "gradient (heap (zero_gdot a st) c) = gradient (heap st c)"
  "grad_dot (heap (zero_gdot a st) c) = (if c = a then live_gdot st a else grad_dot (heap st c))"
  "val_epoch (heap (zero_gdot a st) c) = val_epoch (heap st c)"
  "dot_epoch (heap (zero_gdot a st) c) = dot_epoch (heap st c)"
  "grad_epoch (heap (zero_gdot a st) c) = grad_epoch (heap st c)"
  "gdot_epoch (heap (zero_gdot a st) c) = (if c = a then cur_gdot_epoch (graph st) else gdot_epoch (heap st c))"
  by (simp_all add: slot_defs live_grad_def live_gdot_def)

lemma add_grad_fields:
  "graph (add_grad a v st) = graph st"
  "c \<noteq> a \<Longrightarrow> heap (add_grad a v st) c = heap st c"
  "op (heap (add_grad a v st) c) = op (heap st c)"
  "inputs (heap (add_grad a v st) c) = inputs (heap st c)"
  "node_value (heap (add_grad a v st) c) = node_value (heap st c)"
  "dot (heap (add_grad a v st) c) = dot (heap st c)"
  "gradient (heap (add_grad a v st) c) = (if c = a then gradient (heap st a) + v else gradient (heap st c))"
  "grad_dot (heap (add_grad a v st) c) = grad_dot (heap st c)"
  "val_epoch (heap (add_grad a v st) c) = val_epoch (heap st c)"
  "dot_epoch (heap (add_grad a v st) c) = dot_epoch (heap st c)"
  "grad_epoch (heap (add_grad a v st) c) = grad_epoch (heap st c)"
  "gdot_epoch (heap (add_grad a v st) c) = gdot_epoch (heap st c)"
  by (simp_all add: slot_defs live_grad_def live_gdot_def)

lemma add_gdot_fields:
  "graph (add_gdot a v st) = graph st"
  "c \<noteq> a \<Longrightarrow> heap (add_gdot a v st) c = heap st c"
  "op (heap (add_gdot a v st) c) = op (heap st c)"
  "inputs (heap (add_gdot a v st) c) = inputs (heap st c)"
  "node_value (heap (add_gdot a v st) c) = node_value (heap st c)"
  "dot (heap (add_gdot a v st) c) = dot (heap st c)"
  "gradient (heap (add_gdot a v st) c) = gradient (heap st c)"
  "grad_dot (heap (add_gdot a v st) c) = (if c = a then grad_dot (heap st a) + v else grad_dot (heap st c))"
  "val_epoch (heap (add_gdot a v st) c) = val_epoch (heap st c)"
  "dot_epoch (heap (add_gdot a v st) c) = dot_epoch (heap st c)"
  "grad_epoch (heap (add_gdot a v st) c) = grad_epoch (heap st c)"
  "gdot_epoch (heap (add_gdot a v st) c) = gdot_epoch (heap st c)"
  by (simp_all add: slot_defs live_grad_def live_gdot_def)

lemma acc_grad_fields:
  "graph (acc_grad a v st) = graph st"
  "c \<noteq> a \<Longrightarrow> heap (acc_grad a v st) c = heap st c"
  "op (heap (acc_grad a v st) c) = op (heap st c)"
  "inputs (heap (acc_grad a v st) c) = inputs (heap st c)"
  "node_value (heap (acc_grad a v st) c) = node_value (heap st c)"
  "dot (heap (acc_grad a v st) c) = dot (heap st c)"
  "gradient (heap (acc_grad a v st) c) = (if c = a then live_grad st a + v else gradient (heap st c))"
  "grad_dot (heap (acc_grad a v st) c) = grad_dot (heap st c)"
  "val_epoch (heap (acc_grad a v st) c) = val_epoch (heap st c)"
  "dot_epoch (heap (acc_grad a v st) c) = dot_epoch (heap st c)"
  "grad_epoch (heap (acc_grad a v st) c) = (if c = a then cur_grad_epoch (graph st) else grad_epoch (heap st c))"
  "gdot_epoch (heap (acc_grad a v st) c) = gdot_epoch (heap st c)"
  by (simp_all add: slot_defs live_grad_def live_gdot_def)

lemma acc_gdot_fields:
  "graph (acc_gdot a v st) = graph st"
  "c \<noteq> a \<Longrightarrow> heap (acc_gdot a v st) c = heap st c"
  "op (heap (acc_gdot a v st) c) = op (heap st c)"
  "inputs (heap (acc_gdot a v st) c) = inputs (heap st c)"
  "node_value (heap (acc_gdot a v st) c) = node_value (heap st c)"
  "dot (heap (acc_gdot a v st) c) = dot (heap st c)"
  "gradient (heap (acc_gdot a v st) c) = gradient (heap st c)"
  "grad_dot (heap (acc_gdot a v st) c) = (if c = a then live_gdot st a + v else grad_dot (heap st c))"
  "val_epoch (heap (acc_gdot a v st) c) = val_epoch (heap st c)"
  "dot_epoch (heap (acc_gdot a v st) c) = dot_epoch (heap st c)"
  "grad_epoch (heap (acc_gdot a v st) c) = grad_epoch (heap st c)"
  "gdot_epoch (heap (acc_gdot a v st) c) = (if c = a then cur_gdot_epoch (graph st) else gdot_epoch (heap st c))"
  by (simp_all add: slot_defs live_grad_def live_gdot_def)


lemmas slot_fields = set_value_fields set_dot_fields touch_val_fields touch_dot_fields
  zero_grad_fields zero_gdot_fields add_grad_fields add_gdot_fields acc_grad_fields
  acc_gdot_fields

lemma state_eqI:
  assumes "graph s = graph t"
    and "\<And>c. op (heap s c) = op (heap t c) \<and> inputs (heap s c) = inputs (heap t c)
          \<and> node_value (heap s c) = node_value (heap t c) \<and> dot (heap s c) = dot (heap t c)
          \<and> gradient (heap s c) = gradient (heap t c) \<and> grad_dot (heap s c) = grad_dot (heap t c)
          \<and> val_epoch (heap s c) = val_epoch (heap t c) \<and> dot_epoch (heap s c) = dot_epoch (heap t c)
          \<and> grad_epoch (heap s c) = grad_epoch (heap t c) \<and> gdot_epoch (heap s c) = gdot_epoch (heap t c)"
  shows "s = (t :: ADState)"
proof -
  have "heap s c = heap t c" for c
    using assms(2) [of c] by (intro ADNode.equality) simp_all
  then have "heap s = heap t" by (intro ext)
  then show ?thesis using assms(1) by (intro ADState.equality) simp_all
qed

lemma adj_step_refl: "adj_step A st st"
  by (simp add: adj_step_def)

lemma adj_step_trans:
  "adj_step A st s1 \<Longrightarrow> adj_step B s1 s2 \<Longrightarrow> adj_step (A \<union> B) st s2"
  unfolding adj_step_def grad_live_def gdot_live_def by (intro conjI allI impI) simp_all

lemma adj_step_mono: "adj_step A st st' \<Longrightarrow> A \<subseteq> B \<Longrightarrow> adj_step B st st'"
  unfolding adj_step_def by blast

lemma adj_step_trans_same:
  "adj_step A st s1 \<Longrightarrow> adj_step A s1 s2 \<Longrightarrow> adj_step A st s2"
  using adj_step_trans [of A st s1 A s2] by simp

lemma adj_step_zero_grad: "adj_step {a} st (zero_grad a st)"
  by (simp add: adj_step_def grad_live_def gdot_live_def zero_grad_fields)

lemma adj_step_zero_gdot: "adj_step {a} st (zero_gdot a st)"
  by (simp add: adj_step_def grad_live_def gdot_live_def zero_gdot_fields)

lemma adj_step_add_grad: "adj_step {a} st (add_grad a v st)"
  by (simp add: adj_step_def grad_live_def gdot_live_def add_grad_fields)

lemma adj_step_add_gdot: "adj_step {a} st (add_gdot a v st)"
  by (simp add: adj_step_def grad_live_def gdot_live_def add_gdot_fields)

lemma adj_step_acc_grad: "adj_step {a} st (acc_grad a v st)"
  unfolding acc_grad_def
  by (rule adj_step_trans_same [OF adj_step_zero_grad adj_step_add_grad])

lemma adj_step_acc_gdot: "adj_step {a} st (acc_gdot a v st)"
  unfolding acc_gdot_def
  by (rule adj_step_trans_same [OF adj_step_zero_gdot adj_step_add_gdot])

lemma grad_live_zero_grad: "grad_live (zero_grad a st) a"
  by (simp add: grad_live_def zero_grad_fields)

lemma gdot_live_zero_gdot: "gdot_live (zero_gdot a st) a"
  by (simp add: gdot_live_def zero_gdot_fields)

lemma adj_step_grad_live: "adj_step A st st' \<Longrightarrow> grad_live st c \<Longrightarrow> grad_live st' c"
  by (simp add: adj_step_def)

lemma adj_step_gdot_live: "adj_step A st st' \<Longrightarrow> gdot_live st c \<Longrightarrow> gdot_live st' c"
  by (simp add: adj_step_def)

lemma grad_live_acc_grad: "grad_live (acc_grad a v st) a"
  by (simp add: grad_live_def acc_grad_fields)

lemma gdot_live_acc_gdot: "gdot_live (acc_gdot a v st) a"
  by (simp add: gdot_live_def acc_gdot_fields)

text \<open>Rules that peel one slot operation off a composed state.\<close>

lemma adj_step_in: "a \<in> A \<Longrightarrow> adj_step {a} s s' \<Longrightarrow> adj_step A s s'"
  using adj_step_mono [of "{a}" s s' A] by simp

lemma adj_step_peel:
  assumes "a \<in> A" "adj_step A st s"
  shows "adj_step A st (zero_grad a s)" "adj_step A st (zero_gdot a s)"
    "adj_step A st (add_grad a v s)" "adj_step A st (add_gdot a v s)"
    "adj_step A st (acc_grad a v s)" "adj_step A st (acc_gdot a v s)"
proof -
  note t = adj_step_trans_same [OF assms(2) adj_step_in [OF assms(1)]]
  show "adj_step A st (zero_grad a s)" by (rule t [OF adj_step_zero_grad])
  show "adj_step A st (zero_gdot a s)" by (rule t [OF adj_step_zero_gdot])
  show "adj_step A st (add_grad a v s)" by (rule t [OF adj_step_add_grad])
  show "adj_step A st (add_gdot a v s)" by (rule t [OF adj_step_add_gdot])
  show "adj_step A st (acc_grad a v s)" by (rule t [OF adj_step_acc_grad])
  show "adj_step A st (acc_gdot a v s)" by (rule t [OF adj_step_acc_gdot])
qed

lemma grad_live_peel:
  assumes "grad_live s c"
  shows "grad_live (zero_grad a s) c" "grad_live (zero_gdot a s) c"
    "grad_live (add_grad a v s) c" "grad_live (add_gdot a v s) c"
    "grad_live (acc_grad a v s) c" "grad_live (acc_gdot a v s) c"
  using assms by (simp_all add: grad_live_def slot_fields)

lemma gdot_live_peel:
  assumes "gdot_live s c"
  shows "gdot_live (zero_grad a s) c" "gdot_live (zero_gdot a s) c"
    "gdot_live (add_grad a v s) c" "gdot_live (add_gdot a v s) c"
    "gdot_live (acc_grad a v s) c" "gdot_live (acc_gdot a v s) c"
  using assms by (simp_all add: gdot_live_def slot_fields)

lemmas live_now = grad_live_zero_grad gdot_live_zero_gdot grad_live_acc_grad gdot_live_acc_gdot


lemma adj_step_fold:
  assumes "\<And>x s. x \<in> set xs \<Longrightarrow> adj_step A s (f x s)"
  shows "adj_step A st (fold f xs st)"
  using assms
proof (induction xs arbitrary: st)
  case Nil
  then show ?case by (simp add: adj_step_refl)
next
  case (Cons x xs)
  have 1: "adj_step A st (f x st)" using Cons.prems by simp
  have 2: "adj_step A (f x st) (fold f xs (f x st))"
    using Cons.IH Cons.prems by simp
  show ?case using adj_step_trans_same [OF 1 2] by simp
qed

text \<open>A loop whose every step marks its own target live leaves all targets live.\<close>

lemma fold_all_live:
  assumes step: "\<And>x s. x \<in> set xs \<Longrightarrow> adj_step A s (f x s) \<and> L (f x s) (t x)"
    and keep: "\<And>s s' c. adj_step A s s' \<Longrightarrow> L s c \<Longrightarrow> L s' c"
  shows "\<forall>x\<in>set xs. L (fold f xs st) (t x)"
  using step
proof (induction xs arbitrary: st)
  case Nil
  then show ?case by simp
next
  case (Cons x xs)
  have rest: "adj_step A (f x st) (fold f xs (f x st))"
    by (rule adj_step_fold) (use Cons.prems in simp)
  have "L (f x st) (t x)" using Cons.prems by simp
  then have "L (fold f xs (f x st)) (t x)" using keep [OF rest] by simp
  moreover have "\<forall>y\<in>set xs. L (fold f xs (f x st)) (t y)"
    using Cons.IH Cons.prems by simp
  ultimately show ?case by simp
qed


lemma unary_ok_iff: "unary_ok nd \<longleftrightarrow> (\<exists>a. inputs nd = [Some a])"
  by (cases "inputs nd"; cases "tl (inputs nd)") (auto simp: unary_ok_def)

lemma binary_ok_iff: "binary_ok nd \<longleftrightarrow> (\<exists>a b. inputs nd = [Some a, Some b])"
proof (cases "inputs nd")
  case Nil
  then show ?thesis by (simp add: binary_ok_def)
next
  case (Cons h t)
  note outer = Cons
  show ?thesis
  proof (cases t)
    case Nil
    with outer show ?thesis by (simp add: binary_ok_def)
  next
    case (Cons h2 t2)
    with outer show ?thesis by (cases t2) (auto simp: binary_ok_def)
  qed
qed

lemma foldl_add_sum_list: "foldl (\<lambda>Z (y::real). Z + y) z ys = z + sum_list ys"
  by (induction ys arbitrary: z) simp_all

lemma foldl_add_map: "foldl (\<lambda>Z x. Z + (f x :: real)) z xs = z + sum_list (map f xs)"
  by (induction xs arbitrary: z) simp_all

lemma foldl_max_step:
  "foldl (\<lambda>xmax (xi::real). if xi > xmax then xi else xmax) m xs = Max (insert m (set xs))"
proof (induction xs arbitrary: m)
  case Nil
  then show ?case by simp
next
  case (Cons x xs)
  have "Max (insert (if m < x then x else m) (set xs)) = Max (insert m (insert x (set xs)))"
  proof (cases "m < x")
    case True
    have "Max (insert m (insert x (set xs))) = max m (Max (insert x (set xs)))"
      by (rule Max_insert) simp_all
    also have "\<dots> = Max (insert x (set xs))"
      using True by (intro max_absorb2) (simp add: Max_ge_iff less_imp_le)
    finally show ?thesis using True by simp
  next
    case False
    have "insert m (insert x (set xs)) = insert x (insert m (set xs))" by auto
    moreover have "Max (insert x (insert m (set xs))) = max x (Max (insert m (set xs)))"
      by (rule Max_insert) simp_all
    moreover have "max x (Max (insert m (set xs))) = Max (insert m (set xs))"
      using False by (intro max_absorb2) (simp add: Max_ge_iff)
    ultimately show ?thesis using False by simp
  qed
  with Cons show ?case by simp
qed

lemma softmax_xmax_Max: "(x :: real list) \<noteq> [] \<Longrightarrow> softmax_xmax x = Max (set x)"
proof -
  assume ne: "x \<noteq> []"
  then have "x ! 0 \<in> set x" by (cases x) simp_all
  then have "insert (x ! 0) (set x) = set x" by auto
  then show ?thesis by (simp add: softmax_xmax_def foldl_max_step)
qed

lemma softmax_Z_ge_1:
  fixes x :: "real list"
  assumes "x \<noteq> []"
  shows "1 \<le> sum_list (map (\<lambda>xi. exp (xi - Max (set x))) x)"
proof -
  have "Max (set x) \<in> set x" using assms by (intro Max_in) simp_all
  then obtain i where i: "i < length x" "x ! i = Max (set x)"
    by (auto simp: in_set_conv_nth)
  let ?f = "\<lambda>xi. exp (xi - Max (set x))"
  have "sum_list (map ?f x) = (\<Sum>j<length x. ?f (x ! j))"
    by (simp add: sum_list_sum_nth atLeast0LessThan)
  also have "\<dots> = ?f (x ! i) + (\<Sum>j\<in>{..<length x} - {i}. ?f (x ! j))"
    using i by (subst sum.remove [of _ i]) simp_all
  finally have eq: "sum_list (map ?f x) = ?f (x ! i) + (\<Sum>j\<in>{..<length x} - {i}. ?f (x ! j))" .
  have "0 \<le> (\<Sum>j\<in>{..<length x} - {i}. ?f (x ! j))"
    by (rule sum_nonneg) simp
  then show ?thesis using eq i by simp
qed

lemma deref_all_map_Some [simp]: "deref_all (map Some as) = Inr as"
  by (induction as) simp_all

lemmas ex_defs = ex_graph_def leaf_def visited_def ex_binary_def ex_unary_def ex_null_def
  ex_triple_def

subsection \<open>Unknown operator tags\<close>

text \<open>
  C9. For every operator tag outside the specialised set, the four pass
  functions are the empty functions of the primary template: they return the
  state (every slot and epoch tag of every node, and every graph counter)
  unchanged, and \<open>op_name\<close> yields \<open>unknown\<close>.
\<close>

theorem unknown_ops_are_noops:
  assumes "opr \<notin> {cte, Var, Add, Subtract, Multiply, Divide, Sin, Cos, Tan, Exp, Log,
                   MaxOp, Tanh, Silu, Gelu, Relu, Softmax}"
  shows "OpTraits_forward opr n st = Inr st
       \<and> OpTraits_forward_dot opr n st = Inr st
       \<and> OpTraits_backward opr n st = Inr st
       \<and> OpTraits_hvp_backward opr n st = Inr st
       \<and> op_name opr = ''unknown''"
  using assms by (cases opr) simp_all

theorem unknown_ops_are_noops_witness:
  "OtherOp 7 \<notin> {cte, Var, Add, Subtract, Multiply, Divide, Sin, Cos, Tan, Exp, Log,
                   MaxOp, Tanh, Silu, Gelu, Relu, Softmax}
   \<and> OpTraits_forward (OtherOp 7) 2 (ex_binary (OtherOp 7)) = Inr (ex_binary (OtherOp 7))
   \<and> OpTraits_forward_dot (OtherOp 7) 2 (ex_binary (OtherOp 7)) = Inr (ex_binary (OtherOp 7))
   \<and> OpTraits_backward (OtherOp 7) 2 (ex_binary (OtherOp 7)) = Inr (ex_binary (OtherOp 7))
   \<and> OpTraits_hvp_backward (OtherOp 7) 2 (ex_binary (OtherOp 7)) = Inr (ex_binary (OtherOp 7))
   \<and> op_name (OtherOp 7) = ''unknown''"
  using unknown_ops_are_noops [of "OtherOp 7" 2 "ex_binary (OtherOp 7)"] by simp

subsection \<open>Divide\<close>

lemma DivRule_simps:
  "brule_f DivRule a b = (if b \<noteq> 0 then a / b else 0)"
  "brule_dfa DivRule a b = (if b \<noteq> 0 then 1 / b else 0)"
  "brule_dfb DivRule a b = (if b \<noteq> 0 then - a / (b * b) else 0)"
  "brule_d2aa DivRule a b = 0"
  "brule_d2ab DivRule a b = (if b \<noteq> 0 then - 1 / (b * b) else 0)"
  "brule_d2bb DivRule a b = (if b \<noteq> 0 then 2 * a / (b * b * b) else 0)"
  "brule_forward_dot DivRule = Some DivRule_forward_dot"
  by (simp_all add: DivRule_def safe_div_def)

text \<open>
  C6. For a Divide node with inputs \<open>a\<close> and \<open>b\<close>: forward produces \<open>a / b\<close> when
  \<open>b \<noteq> 0\<close> and 0 when \<open>b = 0\<close>; the custom forward_dot sets the tangent to
  \<open>(adot * b - a * bdot) / b\<^sup>2\<close> when \<open>b \<noteq> 0\<close> and to 0 when \<open>b = 0\<close>; the
  partials are \<open>dfa = 1 / b\<close>, \<open>dfb = - a / b\<^sup>2\<close>, \<open>d2aa = 0\<close>,
  \<open>d2ab = - 1 / b\<^sup>2\<close>, \<open>d2bb = 2 a / b\<^sup>3\<close>, each of them 0 when \<open>b = 0\<close>.
\<close>

theorem Divide_rule:
  fixes st :: ADState and n a b :: nat
  assumes ok: "inputs (heap st n) = [Some a, Some b]"
  shows "\<exists>st1 st2.
      OpTraits_forward Divide n st = Inr st1
    \<and> OpTraits_forward_dot Divide n st = Inr st2
    \<and> node_value (heap st1 n) =
        (if node_value (heap st b) \<noteq> 0
         then node_value (heap st a) / node_value (heap st b) else 0)
    \<and> dot (heap st2 n) =
        (if node_value (heap st b) \<noteq> 0
         then (dot (heap st a) * node_value (heap st b)
               - node_value (heap st a) * dot (heap st b)) / (node_value (heap st b))\<^sup>2
         else 0)
    \<and> (\<forall>x y. brule_dfa DivRule x y = (if y \<noteq> 0 then 1 / y else 0)
           \<and> brule_dfb DivRule x y = (if y \<noteq> 0 then - x / y\<^sup>2 else 0)
           \<and> brule_d2aa DivRule x y = 0
           \<and> brule_d2ab DivRule x y = (if y \<noteq> 0 then - 1 / y\<^sup>2 else 0)
           \<and> brule_d2bb DivRule x y = (if y \<noteq> 0 then 2 * x / y ^ 3 else 0))"
proof -
  have bok: "binary_ok (heap st n)" using ok by (simp add: binary_ok_iff)
  have ia: "input_at st n 0 = a" "input_at st n 1 = b"
    using ok by (simp_all add: input_at_def)
  have v: "node_value (heap (BinaryOp_forward DivRule n st) n) =
        (if node_value (heap st b) \<noteq> 0
         then node_value (heap st a) / node_value (heap st b) else 0)"
    using bok ia by (simp add: BinaryOp_forward_def DivRule_simps Let_def slot_defs)
  have d: "dot (heap (BinaryOp_forward_dot DivRule n st) n) =
        (if node_value (heap st b) \<noteq> 0
         then (dot (heap st a) * node_value (heap st b)
               - node_value (heap st a) * dot (heap st b)) / (node_value (heap st b))\<^sup>2
         else 0)"
    using bok ia
    by (simp add: BinaryOp_forward_dot_def DivRule_simps DivRule_forward_dot_def Let_def
        slot_defs power2_eq_square)
  have r: "\<forall>x y. brule_dfa DivRule x y = (if y \<noteq> 0 then 1 / y else 0)
           \<and> brule_dfb DivRule x y = (if y \<noteq> 0 then - x / y\<^sup>2 else 0)
           \<and> brule_d2aa DivRule x y = 0
           \<and> brule_d2ab DivRule x y = (if y \<noteq> 0 then - 1 / y\<^sup>2 else 0)
           \<and> brule_d2bb DivRule x y = (if y \<noteq> 0 then 2 * x / y ^ 3 else 0)"
    by (simp add: DivRule_simps power2_eq_square power3_eq_cube)
  show ?thesis using v d r by simp
qed


theorem Divide_rule_witness:
  "inputs (heap (ex_binary Divide) 2) = [Some 0, Some 1]
   \<and> (\<exists>st1 st2.
        OpTraits_forward Divide 2 (ex_binary Divide) = Inr st1
      \<and> OpTraits_forward_dot Divide 2 (ex_binary Divide) = Inr st2
      \<and> node_value (heap st1 2) = 2
      \<and> dot (heap st2 2) = - 1)"
proof -
  have h: "inputs (heap (ex_binary Divide) 2) = [Some 0, Some 1]"
    by (simp add: ex_defs)
  from Divide_rule [OF h] obtain st1 st2 where
      "OpTraits_forward Divide 2 (ex_binary Divide) = Inr st1"
      "OpTraits_forward_dot Divide 2 (ex_binary Divide) = Inr st2"
      "node_value (heap st1 2) =
        (if node_value (heap (ex_binary Divide) 1) \<noteq> 0
         then node_value (heap (ex_binary Divide) 0) / node_value (heap (ex_binary Divide) 1)
         else 0)"
      "dot (heap st2 2) =
        (if node_value (heap (ex_binary Divide) 1) \<noteq> 0
         then (dot (heap (ex_binary Divide) 0) * node_value (heap (ex_binary Divide) 1)
               - node_value (heap (ex_binary Divide) 0) * dot (heap (ex_binary Divide) 1))
              / (node_value (heap (ex_binary Divide) 1))\<^sup>2
         else 0)"
    by blast
  then show ?thesis using h by (simp add: ex_defs)
qed

subsection \<open>Max\<close>

text \<open>
  C7. For a Max node with inputs \<open>a\<close> and \<open>b\<close>, let the winner \<open>w\<close> be \<open>a\<close> if
  \<open>a.value \<ge> b.value\<close> (so also on ties) and \<open>b\<close> otherwise, and \<open>l\<close> the other
  input. Forward produces the maximum of the two values, which is the value of
  the winner; forward_dot copies the winner's tangent; backward adds the node's
  gradient to the winner's gradient accumulator and hvp_backward also adds the
  node's grad_dot to the winner's grad_dot accumulator; no node other than the
  winner is changed by the reverse passes, in particular not the loser.
\<close>

theorem Max_routes_to_winner:
  fixes st :: ADState and n a b w l :: nat
  assumes ok: "inputs (heap st n) = [Some a, Some b]"
    and w: "w = (if node_value (heap st a) \<ge> node_value (heap st b) then a else b)"
    and l: "l = (if node_value (heap st a) \<ge> node_value (heap st b) then b else a)"
  shows "\<exists>s1 s2 s3 s4.
      OpTraits_forward MaxOp n st = Inr s1
    \<and> OpTraits_forward_dot MaxOp n st = Inr s2
    \<and> OpTraits_backward MaxOp n st = Inr s3
    \<and> OpTraits_hvp_backward MaxOp n st = Inr s4
    \<and> node_value (heap s1 n) = max (node_value (heap st a)) (node_value (heap st b))
    \<and> node_value (heap s1 n) = node_value (heap st w)
    \<and> dot (heap s2 n) = dot (heap st w)
    \<and> gradient (heap s3 w) = live_grad st w + gradient (heap st n)
    \<and> grad_dot (heap s3 w) = grad_dot (heap st w)
    \<and> (\<forall>c. c \<noteq> w \<longrightarrow> heap s3 c = heap st c)
    \<and> (l \<noteq> w \<longrightarrow> heap s3 l = heap st l)
    \<and> gradient (heap s4 w) = live_grad st w + gradient (heap st n)
    \<and> grad_dot (heap s4 w) = live_gdot st w + grad_dot (heap st n)
    \<and> (\<forall>c. c \<noteq> w \<longrightarrow> heap s4 c = heap st c)
    \<and> (l \<noteq> w \<longrightarrow> heap s4 l = heap st l)"
proof -
  have bok: "binary_ok (heap st n)" using ok by (simp add: binary_ok_iff)
  have ia: "input_at st n 0 = a" "input_at st n 1 = b"
    using ok by (simp_all add: input_at_def)
  have f1: "node_value (heap (Max_forward n st) n)
            = max (node_value (heap st a)) (node_value (heap st b))"
    using bok ia by (simp add: Max_forward_def Let_def slot_defs max_def)
  have f2: "node_value (heap (Max_forward n st) n) = node_value (heap st w)"
    using bok ia w by (simp add: Max_forward_def Let_def slot_defs)
  have d: "dot (heap (Max_forward_dot n st) n) = dot (heap st w)"
    using bok ia w by (simp add: Max_forward_dot_def Let_def slot_defs)
  have b1: "gradient (heap (Max_backward n st) w) = live_grad st w + gradient (heap st n)"
    using bok ia w by (simp add: Max_backward_def Let_def slot_defs live_grad_def)
  have b2: "grad_dot (heap (Max_backward n st) w) = grad_dot (heap st w)"
    using bok ia w by (simp add: Max_backward_def Let_def slot_defs)
  have b3: "\<forall>c. c \<noteq> w \<longrightarrow> heap (Max_backward n st) c = heap st c"
    using bok ia w by (simp add: Max_backward_def Let_def slot_defs)
  have h1: "gradient (heap (Max_hvp_backward n st) w) = live_grad st w + gradient (heap st n)"
    using bok ia w by (simp add: Max_hvp_backward_def Let_def slot_defs live_grad_def)
  have h2: "grad_dot (heap (Max_hvp_backward n st) w) = live_gdot st w + grad_dot (heap st n)"
    using bok ia w by (simp add: Max_hvp_backward_def Let_def slot_defs live_gdot_def)
  have h3: "\<forall>c. c \<noteq> w \<longrightarrow> heap (Max_hvp_backward n st) c = heap st c"
    using bok ia w by (simp add: Max_hvp_backward_def Let_def slot_defs)
  show ?thesis using f1 f2 d b1 b2 b3 h1 h2 h3 by simp
qed

theorem Max_routes_to_winner_witness:
  "inputs (heap (ex_binary MaxOp) 2) = [Some 0, Some 1]
   \<and> (0::nat) = (if node_value (heap (ex_binary MaxOp) 0) \<ge> node_value (heap (ex_binary MaxOp) 1)
                 then 0 else 1)
   \<and> (1::nat) = (if node_value (heap (ex_binary MaxOp) 0) \<ge> node_value (heap (ex_binary MaxOp) 1)
                 then 1 else 0)
   \<and> (\<exists>s1 s2 s3 s4.
        OpTraits_forward MaxOp 2 (ex_binary MaxOp) = Inr s1
      \<and> OpTraits_forward_dot MaxOp 2 (ex_binary MaxOp) = Inr s2
      \<and> OpTraits_backward MaxOp 2 (ex_binary MaxOp) = Inr s3
      \<and> OpTraits_hvp_backward MaxOp 2 (ex_binary MaxOp) = Inr s4
      \<and> node_value (heap s1 2) = 6
      \<and> dot (heap s2 2) = 1
      \<and> gradient (heap s3 0) = 1
      \<and> heap s3 1 = heap (ex_binary MaxOp) 1
      \<and> gradient (heap s4 0) = 1
      \<and> grad_dot (heap s4 0) = 5
      \<and> heap s4 1 = heap (ex_binary MaxOp) 1)"
proof -
  let ?st = "ex_binary MaxOp"
  have h: "inputs (heap ?st 2) = [Some 0, Some 1]"
    by (simp add: ex_defs)
  have w: "(0::nat) = (if node_value (heap ?st 0) \<ge> node_value (heap ?st 1) then 0 else 1)"
    by (simp add: ex_defs)
  have l: "(1::nat) = (if node_value (heap ?st 0) \<ge> node_value (heap ?st 1) then 1 else 0)"
    by (simp add: ex_defs)
  from Max_routes_to_winner [OF h w l] obtain s1 s2 s3 s4 where r:
      "OpTraits_forward MaxOp 2 ?st = Inr s1"
      "OpTraits_forward_dot MaxOp 2 ?st = Inr s2"
      "OpTraits_backward MaxOp 2 ?st = Inr s3"
      "OpTraits_hvp_backward MaxOp 2 ?st = Inr s4"
      "node_value (heap s1 2) = node_value (heap ?st 0)"
      "dot (heap s2 2) = dot (heap ?st 0)"
      "gradient (heap s3 0) = live_grad ?st 0 + gradient (heap ?st 2)"
      "(1::nat) \<noteq> 0 \<longrightarrow> heap s3 1 = heap ?st 1"
      "gradient (heap s4 0) = live_grad ?st 0 + gradient (heap ?st 2)"
      "grad_dot (heap s4 0) = live_gdot ?st 0 + grad_dot (heap ?st 2)"
      "(1::nat) \<noteq> 0 \<longrightarrow> heap s4 1 = heap ?st 1"
    by blast
  have v: "node_value (heap ?st 0) = 6" "dot (heap ?st 0) = 1"
    "live_grad ?st 0 + gradient (heap ?st 2) = 1"
    "live_gdot ?st 0 + grad_dot (heap ?st 2) = 5"
    by (simp_all add: ex_defs live_grad_def live_gdot_def)
  show ?thesis using h w l r v by simp
qed

subsection \<open>Softmax forward\<close>

text \<open>
  C3. For a Softmax node with \<open>m \<ge> 1\<close> inputs holding the values
  \<open>x\<^sub>0 \<dots> x\<^sub>m\<^sub>-\<^sub>1\<close>, forward sets the node's value to \<open>e\<^sub>0 / max Z 1\<close>, where
  \<open>xmax\<close> is the largest \<open>x\<^sub>i\<close>, \<open>e\<^sub>i = exp (x\<^sub>i - xmax)\<close> and \<open>Z\<close> is the sum of
  the \<open>e\<^sub>i\<close>. This is the same as dividing by \<open>Z\<close> unless \<open>Z \<le> 0\<close>, where the
  divisor is 1; and \<open>Z \<ge> 1\<close> always, so that case does not occur.
\<close>

theorem Softmax_forward_value:
  fixes st :: ADState and n :: nat and as :: "nat list" and x :: "real list"
    and xmax Z :: real and e :: "nat \<Rightarrow> real"
  assumes inp: "inputs (heap st n) = map Some as" and ne: "as \<noteq> []"
    and x: "x = map (\<lambda>a. node_value (heap st a)) as"
    and xmax: "xmax = Max (set x)"
    and e: "e = (\<lambda>i. exp (x ! i - xmax))"
    and Z: "Z = (\<Sum>i<length x. e i)"
  shows "\<exists>st'. OpTraits_forward Softmax n st = Inr st'
     \<and> node_value (heap st' n) = e 0 / max Z 1
     \<and> node_value (heap st' n) = e 0 / (if Z \<le> 0 then 1 else Z)
     \<and> 1 \<le> Z"
proof -
  have xne: "x \<noteq> []" using ne x by simp
  have Zs: "Z = sum_list (map (\<lambda>xi. exp (xi - xmax)) x)"
    unfolding Z e by (simp add: sum_list_sum_nth atLeast0LessThan)
  have Z1: "1 \<le> Z" unfolding Zs xmax by (rule softmax_Z_ge_1 [OF xne])
  have run: "OpTraits_forward Softmax n st = Inr (Softmax_forward_body as n st)"
    using inp ne by (simp add: nary_pass_def nary_ok_def)
  have v: "node_value (heap (Softmax_forward_body as n st) n) = e 0 / (if Z > 0 then Z else 1)"
    using xne
    by (simp add: Softmax_forward_body_def Let_def slot_defs x [symmetric]
        softmax_xmax_Max xmax [symmetric] foldl_add_map Zs [symmetric] e)
  show ?thesis using run v Z1 by (simp add: max_def)
qed

theorem Softmax_forward_value_witness:
  "inputs (heap (ex_binary Softmax) 2) = map Some [0, 1] \<and> [0, 1] \<noteq> ([] :: nat list)
   \<and> (\<exists>st'. OpTraits_forward Softmax 2 (ex_binary Softmax) = Inr st'
          \<and> node_value (heap st' 2) = 1 / (1 + exp (- 3)))"
proof -
  let ?st = "ex_binary Softmax"
  let ?x = "map (\<lambda>a. node_value (heap ?st a)) [0, 1]"
  let ?e = "\<lambda>i. exp (?x ! i - Max (set ?x))"
  have h: "inputs (heap ?st 2) = map Some [0, 1]" by (simp add: ex_defs)
  have ne: "[0, 1] \<noteq> ([] :: nat list)" by simp
  from Softmax_forward_value [OF h ne refl refl refl refl] obtain st' where r:
      "OpTraits_forward Softmax 2 ?st = Inr st'"
      "node_value (heap st' 2) = ?e 0 / (if (\<Sum>i<length ?x. ?e i) \<le> 0 then 1
                                           else (\<Sum>i<length ?x. ?e i))"
    by blast
  have x: "?x = [6, 3]" by (simp add: ex_defs)
  have Z: "(\<Sum>i<length ?x. ?e i) = 1 + exp (- 3)"
    unfolding x by (simp add: numeral_2_eq_2)
  have pos: "\<not> 1 + exp (- 3 :: real) \<le> 0"
    by (simp add: add_pos_pos not_le)
  have e0: "?e 0 = 1" unfolding x by simp
  have "node_value (heap st' 2) = 1 / (1 + exp (- 3))"
    using r(2) pos unfolding Z e0 by simp
  then show ?thesis using h r(1) by simp
qed

subsection \<open>Arity and null guards\<close>

text \<open>
  The unary and binary templates and Max return at once when the arity is wrong
  or a handle is null, and the n-ary rules when there is no input.
\<close>

lemma unary_guard_noop:
  "\<not> unary_ok (heap st n) \<Longrightarrow>
     UnaryOp_forward R n st = st \<and> UnaryOp_forward_dot R n st = st
   \<and> UnaryOp_backward R n st = st \<and> UnaryOp_hvp_backward R n st = st"
  by (simp add: UnaryOp_forward_def UnaryOp_forward_dot_def UnaryOp_backward_def
      UnaryOp_hvp_backward_def)

lemma binary_guard_noop:
  "\<not> binary_ok (heap st n) \<Longrightarrow>
     BinaryOp_forward R n st = st \<and> BinaryOp_forward_dot R n st = st
   \<and> BinaryOp_backward R n st = st \<and> BinaryOp_hvp_backward R n st = st
   \<and> Max_forward n st = st \<and> Max_forward_dot n st = st
   \<and> Max_backward n st = st \<and> Max_hvp_backward n st = st"
  by (simp add: BinaryOp_forward_def BinaryOp_forward_dot_def BinaryOp_backward_def
      BinaryOp_hvp_backward_def Max_forward_def Max_forward_dot_def Max_backward_def
      Max_hvp_backward_def)

lemma nary_guard_noop: "inputs (heap st n) = [] \<Longrightarrow> nary_pass body n st = Inr st"
  by (simp add: nary_pass_def nary_ok_def)

lemma nary_null_fails:
  "None \<in> set hs \<Longrightarrow> deref_all hs = Inl NullDeref"
proof (induction hs)
  case Nil
  then show ?case by simp
next
  case (Cons h hs)
  show ?case
  proof (cases h)
    case None
    then show ?thesis by simp
  next
    case (Some a)
    with Cons show ?thesis by simp
  qed
qed

lemma nary_pass_null:
  "None \<in> set (inputs (heap st n)) \<Longrightarrow> nary_pass body n st = Inl NullDeref"
  by (auto simp: nary_pass_def nary_ok_def nary_null_fails)

text \<open>
  C5. The claim that every pass function returns silently, without touching a
  slot, when an input handle is null does not hold for the n-ary rules (Add,
  Multiply, Softmax): \<open>_nary_ok\<close> only tests that the input list is not empty,
  and each pass then dereferences every handle. On the Add, Multiply and
  Softmax node with the inputs \<open>[Some 0, None]\<close> all four passes end in a null
  dereference, while the binary template on the same inputs returns the state
  unchanged.
\<close>

theorem nary_rules_dereference_null:
  "OpTraits_forward Add 2 (ex_null Add) = Inl NullDeref
   \<and> OpTraits_forward_dot Add 2 (ex_null Add) = Inl NullDeref
   \<and> OpTraits_backward Add 2 (ex_null Add) = Inl NullDeref
   \<and> OpTraits_hvp_backward Add 2 (ex_null Add) = Inl NullDeref
   \<and> OpTraits_forward Multiply 2 (ex_null Multiply) = Inl NullDeref
   \<and> OpTraits_forward_dot Multiply 2 (ex_null Multiply) = Inl NullDeref
   \<and> OpTraits_backward Multiply 2 (ex_null Multiply) = Inl NullDeref
   \<and> OpTraits_hvp_backward Multiply 2 (ex_null Multiply) = Inl NullDeref
   \<and> OpTraits_forward Softmax 2 (ex_null Softmax) = Inl NullDeref
   \<and> OpTraits_forward_dot Softmax 2 (ex_null Softmax) = Inl NullDeref
   \<and> OpTraits_backward Softmax 2 (ex_null Softmax) = Inl NullDeref
   \<and> OpTraits_hvp_backward Softmax 2 (ex_null Softmax) = Inl NullDeref
   \<and> OpTraits_forward Subtract 2 (ex_null Subtract) = Inr (ex_null Subtract)
   \<and> OpTraits_backward Subtract 2 (ex_null Subtract) = Inr (ex_null Subtract)"
proof -
  have n: "\<And>opr. None \<in> set (inputs (heap (ex_null opr) 2))"
    by (simp add: ex_defs)
  have b: "\<not> binary_ok (heap (ex_null Subtract) 2)"
    by (simp add: ex_defs binary_ok_def)
  show ?thesis
    using nary_pass_null [OF n] binary_guard_noop [OF b] by simp
qed

subsection \<open>What the reverse passes may change\<close>

lemma deref_all_Inr: "deref_all hs = Inr as \<Longrightarrow> hs = map Some as"
proof (induction hs arbitrary: as)
  case Nil
  then show ?case by simp
next
  case (Cons h hs)
  then show ?case by (cases h) (auto split: sum.splits)
qed

lemma input_set_map_Some: "inputs (heap st n) = map Some as \<Longrightarrow> input_set st n = set as"
  by (auto simp: input_set_def)

lemma nary_pass_Inr:
  "nary_pass body n st = Inr st' \<Longrightarrow>
     (inputs (heap st n) = [] \<and> st' = st)
   \<or> (\<exists>as. as \<noteq> [] \<and> inputs (heap st n) = map Some as \<and> st' = body as n st)"
  by (auto simp: nary_pass_def nary_ok_def split: if_splits sum.splits dest: deref_all_Inr)

lemma nary_pass_run:
  "inputs (heap st n) = map Some as \<Longrightarrow> as \<noteq> [] \<Longrightarrow> nary_pass body n st = Inr (body as n st)"
  by (simp add: nary_pass_def nary_ok_def)

lemma unary_inputs:
  assumes "inputs (heap st n) = [Some a]"
  shows "unary_ok (heap st n)" "input_at st n 0 = a" "input_set st n = {a}"
  using assms by (auto simp: unary_ok_iff input_at_def input_set_def)

lemma binary_inputs:
  assumes "inputs (heap st n) = [Some a, Some b]"
  shows "binary_ok (heap st n)" "input_at st n 0 = a" "input_at st n 1 = b"
    "input_set st n = {a, b}"
  using assms by (auto simp: binary_ok_iff input_at_def input_set_def)

lemma UnaryOp_backward_step:
  "adj_step (input_set st n) st (UnaryOp_backward R n st)"
proof (cases "unary_ok (heap st n)")
  case False
  then show ?thesis by (simp add: UnaryOp_backward_def adj_step_refl)
next
  case True
  then obtain a where a: "inputs (heap st n) = [Some a]" by (auto simp: unary_ok_iff)
  note ia = unary_inputs [OF a]
  show ?thesis unfolding UnaryOp_backward_def Let_def ia
    by (simp add: ia adj_step_acc_grad)
qed

lemma UnaryOp_hvp_backward_step:
  "adj_step (input_set st n) st (UnaryOp_hvp_backward R n st)"
proof (cases "unary_ok (heap st n)")
  case False
  then show ?thesis by (simp add: UnaryOp_hvp_backward_def adj_step_refl)
next
  case True
  then obtain a where a: "inputs (heap st n) = [Some a]" by (auto simp: unary_ok_iff)
  note ia = unary_inputs [OF a]
  have ok: "(\<not> unary_ok (heap st n)) = False" using ia(1) by simp
  show ?thesis unfolding UnaryOp_hvp_backward_def Let_def ia ok if_False
    by (intro adj_step_peel adj_step_refl) simp_all
qed

lemma UnaryOp_backward_live:
  "inputs (heap st n) = [Some a] \<Longrightarrow> grad_live (UnaryOp_backward R n st) a"
  by (simp add: UnaryOp_backward_def unary_inputs Let_def grad_live_acc_grad)

lemma UnaryOp_hvp_backward_live:
  assumes a: "inputs (heap st n) = [Some a]"
  shows "grad_live (UnaryOp_hvp_backward R n st) a" "gdot_live (UnaryOp_hvp_backward R n st) a"
proof -
  note ia = unary_inputs [OF a]
  have ok: "(\<not> unary_ok (heap st n)) = False" using ia(1) by simp
  show "grad_live (UnaryOp_hvp_backward R n st) a"
    unfolding UnaryOp_hvp_backward_def Let_def ia ok if_False
    by (intro grad_live_peel grad_live_zero_grad)
  show "gdot_live (UnaryOp_hvp_backward R n st) a"
    unfolding UnaryOp_hvp_backward_def Let_def ia ok if_False
    by (intro gdot_live_peel gdot_live_zero_gdot)
qed

lemma BinaryOp_backward_step:
  "adj_step (input_set st n) st (BinaryOp_backward R n st)"
proof (cases "binary_ok (heap st n)")
  case False
  then show ?thesis by (simp add: BinaryOp_backward_def adj_step_refl)
next
  case True
  then obtain a b where ab: "inputs (heap st n) = [Some a, Some b]"
    by (auto simp: binary_ok_iff)
  note ia = binary_inputs [OF ab]
  have ok: "(\<not> binary_ok (heap st n)) = False" using ia(1) by simp
  show ?thesis unfolding BinaryOp_backward_def Let_def ia ok if_False
    by (intro adj_step_peel adj_step_refl) simp_all
qed

lemma BinaryOp_hvp_backward_step:
  "adj_step (input_set st n) st (BinaryOp_hvp_backward R n st)"
proof (cases "binary_ok (heap st n)")
  case False
  then show ?thesis by (simp add: BinaryOp_hvp_backward_def adj_step_refl)
next
  case True
  then obtain a b where ab: "inputs (heap st n) = [Some a, Some b]"
    by (auto simp: binary_ok_iff)
  note ia = binary_inputs [OF ab]
  have ok: "(\<not> binary_ok (heap st n)) = False" using ia(1) by simp
  show ?thesis unfolding BinaryOp_hvp_backward_def Let_def ia ok if_False
    by (intro adj_step_peel adj_step_refl) simp_all
qed

lemma BinaryOp_backward_live:
  assumes ab: "inputs (heap st n) = [Some a, Some b]"
  shows "grad_live (BinaryOp_backward R n st) a" "grad_live (BinaryOp_backward R n st) b"
proof -
  note ia = binary_inputs [OF ab]
  have ok: "(\<not> binary_ok (heap st n)) = False" using ia(1) by simp
  show "grad_live (BinaryOp_backward R n st) a"
    unfolding BinaryOp_backward_def Let_def ia ok if_False
    by (intro grad_live_peel grad_live_acc_grad)
  show "grad_live (BinaryOp_backward R n st) b"
    unfolding BinaryOp_backward_def Let_def ia ok if_False
    by (intro grad_live_acc_grad)
qed

lemma BinaryOp_hvp_backward_live:
  assumes ab: "inputs (heap st n) = [Some a, Some b]"
  shows "grad_live (BinaryOp_hvp_backward R n st) a" "grad_live (BinaryOp_hvp_backward R n st) b"
    "gdot_live (BinaryOp_hvp_backward R n st) a" "gdot_live (BinaryOp_hvp_backward R n st) b"
proof -
  note ia = binary_inputs [OF ab]
  have ok: "(\<not> binary_ok (heap st n)) = False" using ia(1) by simp
  show "grad_live (BinaryOp_hvp_backward R n st) a"
    unfolding BinaryOp_hvp_backward_def Let_def ia ok if_False
    by (intro grad_live_peel grad_live_zero_grad)
  show "grad_live (BinaryOp_hvp_backward R n st) b"
    unfolding BinaryOp_hvp_backward_def Let_def ia ok if_False
    by (intro grad_live_peel grad_live_zero_grad)
  show "gdot_live (BinaryOp_hvp_backward R n st) a"
    unfolding BinaryOp_hvp_backward_def Let_def ia ok if_False
    by (intro gdot_live_peel gdot_live_zero_gdot)
  show "gdot_live (BinaryOp_hvp_backward R n st) b"
    unfolding BinaryOp_hvp_backward_def Let_def ia ok if_False
    by (intro gdot_live_peel gdot_live_zero_gdot)
qed

lemma Max_backward_eq:
  "binary_ok (heap st n) \<Longrightarrow>
   Max_backward n st = acc_grad (max_winner st n) (gradient (heap st n)) st"
  by (simp add: Max_backward_def max_winner_def Let_def)

lemma Max_hvp_backward_eq:
  "binary_ok (heap st n) \<Longrightarrow>
   Max_hvp_backward n st =
     acc_gdot (max_winner st n)
       (grad_dot (heap (acc_grad (max_winner st n) (gradient (heap st n)) st) n))
       (acc_grad (max_winner st n) (gradient (heap st n)) st)"
  by (simp add: Max_hvp_backward_def max_winner_def Let_def)

lemma max_winner_in: "binary_ok (heap st n) \<Longrightarrow> max_winner st n \<in> input_set st n"
  by (auto simp: binary_ok_iff max_winner_def input_at_def input_set_def)

lemma Max_backward_step: "adj_step (input_set st n) st (Max_backward n st)"
proof (cases "binary_ok (heap st n)")
  case False
  then show ?thesis by (simp add: Max_backward_def adj_step_refl)
next
  case True
  show ?thesis unfolding Max_backward_eq [OF True]
    by (intro adj_step_peel adj_step_refl max_winner_in True)
qed

lemma Max_hvp_backward_step: "adj_step (input_set st n) st (Max_hvp_backward n st)"
proof (cases "binary_ok (heap st n)")
  case False
  then show ?thesis by (simp add: Max_hvp_backward_def adj_step_refl)
next
  case True
  show ?thesis unfolding Max_hvp_backward_eq [OF True]
    by (intro adj_step_peel adj_step_refl max_winner_in True)
qed

lemma Max_backward_only_winner:
  "adj_step {max_winner st n} st (Max_backward n st)"
proof (cases "binary_ok (heap st n)")
  case False
  then show ?thesis by (simp add: Max_backward_def adj_step_refl)
next
  case True
  show ?thesis unfolding Max_backward_eq [OF True]
    by (intro adj_step_peel adj_step_refl) simp
qed

lemma Max_hvp_backward_only_winner:
  "adj_step {max_winner st n} st (Max_hvp_backward n st)"
proof (cases "binary_ok (heap st n)")
  case False
  then show ?thesis by (simp add: Max_hvp_backward_def adj_step_refl)
next
  case True
  show ?thesis unfolding Max_hvp_backward_eq [OF True]
    by (intro adj_step_peel adj_step_refl) simp_all
qed

lemma Max_backward_live:
  "binary_ok (heap st n) \<Longrightarrow> grad_live (Max_backward n st) (max_winner st n)"
  unfolding Max_backward_eq by (intro grad_live_acc_grad)

lemma Max_hvp_backward_live:
  assumes "binary_ok (heap st n)"
  shows "grad_live (Max_hvp_backward n st) (max_winner st n)"
    "gdot_live (Max_hvp_backward n st) (max_winner st n)"
  unfolding Max_hvp_backward_eq [OF assms]
  by (intro grad_live_peel grad_live_acc_grad gdot_live_acc_gdot)+

lemma nth_upt_in: "i \<in> set [0..<length as] \<Longrightarrow> as ! i \<in> set as"
  by simp

lemma Add_backward_step: "adj_step (set as) st (Add_backward_body as n st)"
  unfolding Add_backward_body_def
  by (rule adj_step_fold) (intro adj_step_peel adj_step_refl)

lemma Add_hvp_backward_step: "adj_step (set as) st (Add_hvp_backward_body as n st)"
  unfolding Add_hvp_backward_body_def Let_def
  by (rule adj_step_fold) (intro adj_step_peel adj_step_refl)

lemma Multiply_backward_step: "adj_step (set as) st (Multiply_backward_body as n st)"
  unfolding Multiply_backward_body_def Let_def build_prefix_suffix_def prod.case
  by (rule adj_step_fold) (intro adj_step_peel adj_step_refl nth_upt_in)

lemma Multiply_hvp_binary_step:
  "length as = 2 \<Longrightarrow> adj_step (set as) st (Multiply_hvp_binary as n st)"
proof -
  assume "length as = 2"
  then have "as ! 0 \<in> set as" "as ! 1 \<in> set as" by simp_all
  then show ?thesis unfolding Multiply_hvp_binary_def Let_def
    by (intro adj_step_peel adj_step_refl)
qed

lemma Multiply_hvp_general_step: "adj_step (set as) st (Multiply_hvp_general as n st)"
  unfolding Multiply_hvp_general_def Let_def build_prefix_suffix_def prod.case
  by (rule adj_step_fold) (intro adj_step_peel adj_step_refl nth_upt_in)

lemma Multiply_hvp_backward_step: "adj_step (set as) st (Multiply_hvp_backward_body as n st)"
  by (simp add: Multiply_hvp_backward_body_def Multiply_hvp_binary_step
      Multiply_hvp_general_step)

lemma Softmax_backward_step: "adj_step (set as) st (Softmax_backward_body as n st)"
  unfolding Softmax_backward_body_def Let_def
  by (rule adj_step_fold) (intro adj_step_peel adj_step_refl nth_upt_in)

lemma Softmax_hvp_backward_step: "adj_step (set as) st (Softmax_hvp_backward_body as n st)"
  unfolding Softmax_hvp_backward_body_def Let_def
  by (rule adj_step_fold) (intro adj_step_peel adj_step_refl nth_upt_in)

lemma fold_list_grad_live:
  assumes "\<And>a s. a \<in> set as \<Longrightarrow> adj_step (set as) s (f a s)"
    and "\<And>a s. a \<in> set as \<Longrightarrow> grad_live (f a s) a"
  shows "\<forall>a\<in>set as. grad_live (fold f as st) a"
  by (rule fold_all_live [where A = "set as" and L = grad_live and t = "\<lambda>a. a"])
     (use assms in \<open>auto intro: adj_step_grad_live\<close>)

lemma fold_list_gdot_live:
  assumes "\<And>a s. a \<in> set as \<Longrightarrow> adj_step (set as) s (f a s)"
    and "\<And>a s. a \<in> set as \<Longrightarrow> gdot_live (f a s) a"
  shows "\<forall>a\<in>set as. gdot_live (fold f as st) a"
  by (rule fold_all_live [where A = "set as" and L = gdot_live and t = "\<lambda>a. a"])
     (use assms in \<open>auto intro: adj_step_gdot_live\<close>)

lemma fold_upt_grad_live:
  assumes "\<And>i s. i \<in> set [0..<length as] \<Longrightarrow> adj_step (set as) s (f i s)"
    and "\<And>i s. i \<in> set [0..<length as] \<Longrightarrow> grad_live (f i s) (as ! i)"
  shows "\<forall>a\<in>set as. grad_live (fold f [0..<length as] st) a"
proof -
  have "\<forall>i\<in>set [0..<length as]. grad_live (fold f [0..<length as] st) (as ! i)"
    by (rule fold_all_live [where A = "set as" and L = grad_live and t = "\<lambda>i. as ! i"])
       (use assms in \<open>auto intro: adj_step_grad_live\<close>)
  then show ?thesis by (auto simp: in_set_conv_nth)
qed

lemma fold_upt_gdot_live:
  assumes "\<And>i s. i \<in> set [0..<length as] \<Longrightarrow> adj_step (set as) s (f i s)"
    and "\<And>i s. i \<in> set [0..<length as] \<Longrightarrow> gdot_live (f i s) (as ! i)"
  shows "\<forall>a\<in>set as. gdot_live (fold f [0..<length as] st) a"
proof -
  have "\<forall>i\<in>set [0..<length as]. gdot_live (fold f [0..<length as] st) (as ! i)"
    by (rule fold_all_live [where A = "set as" and L = gdot_live and t = "\<lambda>i. as ! i"])
       (use assms in \<open>auto intro: adj_step_gdot_live\<close>)
  then show ?thesis by (auto simp: in_set_conv_nth)
qed

lemma Add_backward_live: "\<forall>a\<in>set as. grad_live (Add_backward_body as n st) a"
  unfolding Add_backward_body_def
  by (rule fold_list_grad_live) (intro adj_step_peel adj_step_refl grad_live_acc_grad | assumption)+

lemma Add_hvp_backward_live:
  "\<forall>a\<in>set as. grad_live (Add_hvp_backward_body as n st) a"
  "\<forall>a\<in>set as. gdot_live (Add_hvp_backward_body as n st) a"
  unfolding Add_hvp_backward_body_def Let_def
  by (rule fold_list_grad_live fold_list_gdot_live,
      (intro adj_step_peel adj_step_refl grad_live_peel grad_live_acc_grad gdot_live_acc_gdot
        | assumption)+)+

lemma Multiply_backward_live: "\<forall>a\<in>set as. grad_live (Multiply_backward_body as n st) a"
  unfolding Multiply_backward_body_def Let_def build_prefix_suffix_def prod.case
  by (rule fold_upt_grad_live)
     (intro adj_step_peel adj_step_refl grad_live_acc_grad nth_upt_in | assumption)+

lemma Softmax_backward_live: "\<forall>a\<in>set as. grad_live (Softmax_backward_body as n st) a"
  unfolding Softmax_backward_body_def Let_def
  by (rule fold_upt_grad_live)
     (intro adj_step_peel adj_step_refl grad_live_acc_grad nth_upt_in | assumption)+

lemma Softmax_hvp_backward_live:
  "\<forall>a\<in>set as. grad_live (Softmax_hvp_backward_body as n st) a"
  "\<forall>a\<in>set as. gdot_live (Softmax_hvp_backward_body as n st) a"
  unfolding Softmax_hvp_backward_body_def Let_def
  by (rule fold_upt_grad_live fold_upt_gdot_live,
      (intro adj_step_peel adj_step_refl grad_live_peel grad_live_zero_grad gdot_live_peel
         gdot_live_zero_gdot nth_upt_in | assumption)+)+

lemma Multiply_hvp_general_live:
  "\<forall>a\<in>set as. grad_live (Multiply_hvp_general as n st) a"
  "\<forall>a\<in>set as. gdot_live (Multiply_hvp_general as n st) a"
  unfolding Multiply_hvp_general_def Let_def build_prefix_suffix_def prod.case
  by (rule fold_upt_grad_live fold_upt_gdot_live,
      (intro adj_step_peel adj_step_refl grad_live_peel grad_live_zero_grad gdot_live_peel
         gdot_live_zero_gdot nth_upt_in | assumption)+)+

lemma set_two: "length as = 2 \<Longrightarrow> set as = {as ! 0, as ! 1}"
proof -
  assume "length as = 2"
  then obtain x y where "as = [x, y]"
    by (cases as; cases "tl as") auto
  then show ?thesis by simp
qed

lemma Multiply_hvp_binary_live:
  assumes "length as = 2"
  shows "\<forall>a\<in>set as. grad_live (Multiply_hvp_binary as n st) a"
    "\<forall>a\<in>set as. gdot_live (Multiply_hvp_binary as n st) a"
proof -
  have "grad_live (Multiply_hvp_binary as n st) (as ! 0)"
    unfolding Multiply_hvp_binary_def Let_def by (intro grad_live_peel grad_live_zero_grad)
  moreover have "grad_live (Multiply_hvp_binary as n st) (as ! 1)"
    unfolding Multiply_hvp_binary_def Let_def by (intro grad_live_peel grad_live_zero_grad)
  ultimately show "\<forall>a\<in>set as. grad_live (Multiply_hvp_binary as n st) a"
    by (simp add: set_two [OF assms])
  have "gdot_live (Multiply_hvp_binary as n st) (as ! 0)"
    unfolding Multiply_hvp_binary_def Let_def by (intro gdot_live_peel gdot_live_zero_gdot)
  moreover have "gdot_live (Multiply_hvp_binary as n st) (as ! 1)"
    unfolding Multiply_hvp_binary_def Let_def by (intro gdot_live_peel gdot_live_zero_gdot)
  ultimately show "\<forall>a\<in>set as. gdot_live (Multiply_hvp_binary as n st) a"
    by (simp add: set_two [OF assms])
qed

lemma Multiply_hvp_backward_live:
  "\<forall>a\<in>set as. grad_live (Multiply_hvp_backward_body as n st) a"
  "\<forall>a\<in>set as. gdot_live (Multiply_hvp_backward_body as n st) a"
  using Multiply_hvp_binary_live [of as n st] Multiply_hvp_general_live [of as n st]
  by (simp_all add: Multiply_hvp_backward_body_def)

lemma nary_pass_step:
  assumes "nary_pass body n st = Inr st'" and "\<And>as. adj_step (set as) st (body as n st)"
  shows "adj_step (input_set st n) st st'"
  using nary_pass_Inr [OF assms(1)] assms(2)
  by (auto simp: input_set_map_Some adj_step_refl)

lemma OpTraits_backward_step:
  "OpTraits_backward opr n st = Inr st' \<Longrightarrow> adj_step (input_set st n) st st'"
  by (cases opr)
     (auto simp: adj_step_refl UnaryOp_backward_step BinaryOp_backward_step Max_backward_step
        Add_backward_step Multiply_backward_step Softmax_backward_step
        intro: nary_pass_step)

lemma OpTraits_hvp_backward_step:
  "OpTraits_hvp_backward opr n st = Inr st' \<Longrightarrow> adj_step (input_set st n) st st'"
  by (cases opr)
     (auto simp: adj_step_refl UnaryOp_hvp_backward_step BinaryOp_hvp_backward_step
        Max_hvp_backward_step Add_hvp_backward_step Multiply_hvp_backward_step
        Softmax_hvp_backward_step
        intro: nary_pass_step)

lemma no_null_map_Some: "None \<notin> set hs \<Longrightarrow> hs = map Some (map the hs)"
  by (induction hs) auto

lemma nary_pass_total:
  assumes "None \<notin> set (inputs (heap st n))"
  shows "\<exists>s. nary_pass body n st = Inr s"
proof -
  have "deref_all (inputs (heap st n)) = Inr (map the (inputs (heap st n)))"
    using no_null_map_Some [OF assms] deref_all_map_Some by metis
  then show ?thesis by (simp add: nary_pass_def)
qed

lemma OpTraits_total:
  assumes "None \<notin> set (inputs (heap st n))"
  shows "\<exists>s. OpTraits_forward opr n st = Inr s" "\<exists>s. OpTraits_forward_dot opr n st = Inr s"
    "\<exists>s. OpTraits_backward opr n st = Inr s" "\<exists>s. OpTraits_hvp_backward opr n st = Inr s"
  using nary_pass_total [OF assms] by (cases opr; simp)+

subsection \<open>What the forward passes change\<close>

lemma value_step_refl: "value_step n st st"
  unfolding value_step_def
  by (intro conjI allI impI exI [of _ "node_value (heap st n)"] exI [of _ "val_epoch (heap st n)"])
     simp_all

lemma tangent_step_refl: "tangent_step n st st"
  unfolding tangent_step_def
  by (intro conjI allI impI exI [of _ "dot (heap st n)"] exI [of _ "val_epoch (heap st n)"]
      exI [of _ "dot_epoch (heap st n)"]) simp_all

lemma value_step_set_value: "value_step n st (set_value n v st)"
  unfolding value_step_def
  by (intro conjI allI impI exI [of _ v] exI [of _ "cur_val_epoch (graph st)"])
     (simp_all add: slot_defs)

lemma value_step_touch_val: "value_step n st (touch_val n st)"
  unfolding value_step_def
  by (intro conjI allI impI exI [of _ "node_value (heap st n)"]
      exI [of _ "cur_val_epoch (graph st)"]) (simp_all add: slot_defs)

lemma tangent_step_set_dot: "tangent_step n st (touch_val n (set_dot n v st))"
  unfolding tangent_step_def
  by (intro conjI allI impI exI [of _ v] exI [of _ "cur_val_epoch (graph st)"]
      exI [of _ "cur_dot_epoch (graph st)"]) (simp_all add: slot_defs)

lemma tangent_step_touch: "tangent_step n st (touch_val n (touch_dot n st))"
  unfolding tangent_step_def
  by (intro conjI allI impI exI [of _ "dot (heap st n)"] exI [of _ "cur_val_epoch (graph st)"]
      exI [of _ "cur_dot_epoch (graph st)"]) (simp_all add: slot_defs)

lemma val_tag_set_value: "val_epoch (heap (set_value n v st) n) = cur_val_epoch (graph st)"
  by (simp add: set_value_fields)

lemma val_tag_touch_val: "val_epoch (heap (touch_val n st) n) = cur_val_epoch (graph st)"
  by (simp add: touch_val_fields)

lemma dot_tags_set_dot:
  "dot_epoch (heap (touch_val n (set_dot n v st)) n) = cur_dot_epoch (graph st)"
  "val_epoch (heap (touch_val n (set_dot n v st)) n) = cur_val_epoch (graph st)"
  "dot (heap (touch_val n (set_dot n v st)) n) = v"
  by (simp_all add: touch_val_fields set_dot_fields)

lemma dot_tags_touch:
  "dot_epoch (heap (touch_val n (touch_dot n st)) n) = cur_dot_epoch (graph st)"
  "val_epoch (heap (touch_val n (touch_dot n st)) n) = cur_val_epoch (graph st)"
  "dot (heap (touch_val n (touch_dot n st)) n) = dot (heap st n)"
  by (simp_all add: touch_val_fields touch_dot_fields)

text \<open>The custom tangent rules of Log, Tan and Divide compute the generic expression.\<close>

lemma UnaryOp_forward_dot_generic:
  assumes ok: "unary_ok (heap st n)" and R: "R \<in> unary_rules"
  shows "UnaryOp_forward_dot R n st =
         touch_val n (set_dot n (rule_df R (node_value (heap st (input_at st n 0)))
                                 * dot (heap st (input_at st n 0))) st)"
proof -
  have plain: "rule_forward_dot R = None \<Longrightarrow> ?thesis"
    using ok by (simp add: UnaryOp_forward_dot_def Let_def)
  have lg: "UnaryOp_forward_dot LogRule n st =
         touch_val n (set_dot n (rule_df LogRule (node_value (heap st (input_at st n 0)))
                                 * dot (heap st (input_at st n 0))) st)"
    using ok by (simp add: UnaryOp_forward_dot_def LogRule_def LogRule_forward_dot_def Let_def)
  have tn: "UnaryOp_forward_dot TanRule n st =
         touch_val n (set_dot n (rule_df TanRule (node_value (heap st (input_at st n 0)))
                                 * dot (heap st (input_at st n 0))) st)"
    using ok by (simp add: UnaryOp_forward_dot_def TanRule_def TanRule_forward_dot_def Let_def)
  from R consider "R = SinRule" | "R = CosRule" | "R = ExpRule" | "R = LogRule" | "R = TanRule"
    | "R = TanhRule" | "R = SiLURule" | "R = GELURule" | "R = ReluRule"
    by (auto simp: unary_rules_def)
  then show ?thesis
  proof cases
    case 4 then show ?thesis using lg by simp
  next
    case 5 then show ?thesis using tn by simp
  qed (rule plain, simp add: SinRule_def CosRule_def ExpRule_def TanhRule_def SiLURule_def
        GELURule_def ReluRule_def)+
qed

lemma BinaryOp_forward_dot_generic:
  assumes ok: "binary_ok (heap st n)" and R: "R = SubRule \<or> R = DivRule \<or> R = AddRule"
  shows "BinaryOp_forward_dot R n st =
         touch_val n (set_dot n
           (brule_dfa R (node_value (heap st (input_at st n 0)))
                        (node_value (heap st (input_at st n 1)))
              * dot (heap st (input_at st n 0))
            + brule_dfb R (node_value (heap st (input_at st n 0)))
                          (node_value (heap st (input_at st n 1)))
              * dot (heap st (input_at st n 1))) st)"
proof -
  have plain: "brule_forward_dot R = None \<Longrightarrow> ?thesis"
    using ok by (simp add: BinaryOp_forward_dot_def Let_def)
  have dv: "R = DivRule \<Longrightarrow> ?thesis"
    using ok
    by (simp add: BinaryOp_forward_dot_def DivRule_def DivRule_forward_dot_def Let_def
        diff_divide_distrib)
  show ?thesis using R plain dv by (auto simp: SubRule_def AddRule_def)
qed

lemmas forward_bodies = Add_forward_body_def Multiply_forward_body_def Softmax_forward_body_def
lemmas forward_dot_bodies = Add_forward_dot_body_def Multiply_forward_dot_body_def
  Softmax_forward_dot_body_def

lemma unary_rules_mem [simp]:
  "SinRule \<in> unary_rules" "CosRule \<in> unary_rules" "ExpRule \<in> unary_rules"
  "LogRule \<in> unary_rules" "TanRule \<in> unary_rules" "TanhRule \<in> unary_rules"
  "SiLURule \<in> unary_rules" "GELURule \<in> unary_rules" "ReluRule \<in> unary_rules"
  by (simp_all add: unary_rules_def)

lemma UnaryOp_forward_step: "value_step n st (UnaryOp_forward R n st)"
  by (simp add: UnaryOp_forward_def Let_def value_step_refl value_step_set_value)

lemma BinaryOp_forward_step: "value_step n st (BinaryOp_forward R n st)"
  by (simp add: BinaryOp_forward_def Let_def value_step_refl value_step_set_value)

lemma Max_forward_step: "value_step n st (Max_forward n st)"
  by (simp add: Max_forward_def Let_def value_step_refl value_step_set_value)

lemma nary_forward_step:
  assumes "nary_pass body n st = Inr st'"
    and "\<And>as. \<exists>v. body as n st = set_value n v st"
  shows "value_step n st st'"
proof -
  from nary_pass_Inr [OF assms(1)] consider "st' = st" | as where "st' = body as n st" by blast
  then show ?thesis
  proof cases
    case 1
    then show ?thesis by (simp add: value_step_refl)
  next
    case 2
    with assms(2) [of as] show ?thesis by (auto simp: value_step_set_value)
  qed
qed

lemma nary_forward_tag:
  assumes "nary_pass body n st = Inr st'" and "nary_ok (heap st n)"
    and "\<And>as. \<exists>v. body as n st = set_value n v st"
  shows "val_epoch (heap st' n) = cur_val_epoch (graph st)"
proof -
  from nary_pass_Inr [OF assms(1)] assms(2) obtain as where "st' = body as n st"
    by (auto simp: nary_ok_def)
  with assms(3) [of as] show ?thesis by (auto simp: val_tag_set_value)
qed

lemma forward_body_shape:
  "\<exists>v. Add_forward_body as n st = set_value n v st"
  "\<exists>v. Multiply_forward_body as n st = set_value n v st"
  "\<exists>v. Softmax_forward_body as n st = set_value n v st"
  unfolding forward_bodies Let_def by (rule exI, rule refl)+

lemma OpTraits_forward_step:
  assumes "OpTraits_forward opr n st = Inr st'"
  shows "value_step n st st'"
proof (cases opr)
  case Add
  then show ?thesis using assms nary_forward_step forward_body_shape(1) by simp
next
  case Multiply
  then show ?thesis using assms nary_forward_step forward_body_shape(2) by simp
next
  case Softmax
  then show ?thesis using assms nary_forward_step forward_body_shape(3) by simp
qed (use assms in \<open>auto simp: UnaryOp_forward_step BinaryOp_forward_step Max_forward_step
       value_step_refl value_step_touch_val\<close>)

lemma UnaryOp_forward_tag:
  "unary_ok (heap st n) \<Longrightarrow>
   val_epoch (heap (UnaryOp_forward R n st) n) = cur_val_epoch (graph st)"
  by (simp add: UnaryOp_forward_def Let_def val_tag_set_value)

lemma BinaryOp_forward_tag:
  "binary_ok (heap st n) \<Longrightarrow>
   val_epoch (heap (BinaryOp_forward R n st) n) = cur_val_epoch (graph st)"
  by (simp add: BinaryOp_forward_def Let_def val_tag_set_value)

lemma Max_forward_tag:
  "binary_ok (heap st n) \<Longrightarrow>
   val_epoch (heap (Max_forward n st) n) = cur_val_epoch (graph st)"
  by (simp add: Max_forward_def Let_def val_tag_set_value)

lemma OpTraits_forward_tag:
  assumes "arity_ok opr (heap st n)" "writes_own_slot opr" "OpTraits_forward opr n st = Inr st'"
  shows "val_epoch (heap st' n) = cur_val_epoch (graph st)"
proof (cases opr)
  case Add
  then show ?thesis using assms nary_forward_tag forward_body_shape(1) by simp
next
  case Multiply
  then show ?thesis using assms nary_forward_tag forward_body_shape(2) by simp
next
  case Softmax
  then show ?thesis using assms nary_forward_tag forward_body_shape(3) by simp
qed (use assms in \<open>auto simp: UnaryOp_forward_tag BinaryOp_forward_tag Max_forward_tag
       val_tag_touch_val\<close>)

lemma UnaryOp_forward_dot_step:
  "R \<in> unary_rules \<Longrightarrow> tangent_step n st (UnaryOp_forward_dot R n st)"
proof (cases "unary_ok (heap st n)")
  case True
  assume "R \<in> unary_rules"
  from UnaryOp_forward_dot_generic [OF True this] show ?thesis
    by (simp add: tangent_step_set_dot)
next
  case False
  then show ?thesis by (simp add: UnaryOp_forward_dot_def tangent_step_refl)
qed

lemma UnaryOp_forward_dot_tag:
  assumes "unary_ok (heap st n)" "R \<in> unary_rules"
  shows "dot_epoch (heap (UnaryOp_forward_dot R n st) n) = cur_dot_epoch (graph st)"
    "val_epoch (heap (UnaryOp_forward_dot R n st) n) = cur_val_epoch (graph st)"
  unfolding UnaryOp_forward_dot_generic [OF assms] by (rule dot_tags_set_dot)+

lemma binary_rules_cases [simp]:
  "SubRule = SubRule \<or> SubRule = DivRule \<or> SubRule = AddRule"
  "DivRule = SubRule \<or> DivRule = DivRule \<or> DivRule = AddRule"
  "AddRule = SubRule \<or> AddRule = DivRule \<or> AddRule = AddRule"
  by simp_all

lemma BinaryOp_forward_dot_step:
  "R = SubRule \<or> R = DivRule \<or> R = AddRule \<Longrightarrow> tangent_step n st (BinaryOp_forward_dot R n st)"
proof (cases "binary_ok (heap st n)")
  case True
  assume "R = SubRule \<or> R = DivRule \<or> R = AddRule"
  from BinaryOp_forward_dot_generic [OF True this] show ?thesis
    by (simp add: tangent_step_set_dot)
next
  case False
  then show ?thesis by (simp add: BinaryOp_forward_dot_def tangent_step_refl)
qed

lemma BinaryOp_forward_dot_tag:
  assumes "binary_ok (heap st n)" "R = SubRule \<or> R = DivRule \<or> R = AddRule"
  shows "dot_epoch (heap (BinaryOp_forward_dot R n st) n) = cur_dot_epoch (graph st)"
    "val_epoch (heap (BinaryOp_forward_dot R n st) n) = cur_val_epoch (graph st)"
  unfolding BinaryOp_forward_dot_generic [OF assms] by (rule dot_tags_set_dot)+

lemma Max_forward_dot_step: "tangent_step n st (Max_forward_dot n st)"
  by (simp add: Max_forward_dot_def Let_def tangent_step_refl tangent_step_set_dot)

lemma Max_forward_dot_tag:
  assumes "binary_ok (heap st n)"
  shows "dot_epoch (heap (Max_forward_dot n st) n) = cur_dot_epoch (graph st)"
    "val_epoch (heap (Max_forward_dot n st) n) = cur_val_epoch (graph st)"
  using assms by (simp_all add: Max_forward_dot_def Let_def dot_tags_set_dot)

lemma forward_dot_body_shape:
  "\<exists>v. Add_forward_dot_body as n st = touch_val n (set_dot n v st)"
  "\<exists>v. Multiply_forward_dot_body as n st = touch_val n (set_dot n v st)"
  "\<exists>v. Softmax_forward_dot_body as n st = touch_val n (set_dot n v st)"
  unfolding forward_dot_bodies Let_def build_prefix_suffix_def prod.case
  by (rule exI, rule refl)+

lemma nary_forward_dot_step:
  assumes "nary_pass body n st = Inr st'"
    and "\<And>as. \<exists>v. body as n st = touch_val n (set_dot n v st)"
  shows "tangent_step n st st'"
proof -
  from nary_pass_Inr [OF assms(1)] consider "st' = st" | as where "st' = body as n st" by blast
  then show ?thesis
  proof cases
    case 1
    then show ?thesis by (simp add: tangent_step_refl)
  next
    case 2
    with assms(2) [of as] show ?thesis by (auto simp: tangent_step_set_dot)
  qed
qed

lemma nary_forward_dot_tag:
  assumes "nary_pass body n st = Inr st'" and "nary_ok (heap st n)"
    and "\<And>as. \<exists>v. body as n st = touch_val n (set_dot n v st)"
  shows "dot_epoch (heap st' n) = cur_dot_epoch (graph st)
       \<and> val_epoch (heap st' n) = cur_val_epoch (graph st)"
proof -
  from nary_pass_Inr [OF assms(1)] assms(2) obtain as where "st' = body as n st"
    by (auto simp: nary_ok_def)
  with assms(3) [of as] show ?thesis by (auto simp: dot_tags_set_dot)
qed

lemma OpTraits_forward_dot_step:
  assumes "OpTraits_forward_dot opr n st = Inr st'"
  shows "tangent_step n st st'"
proof (cases opr)
  case Add
  then show ?thesis using assms nary_forward_dot_step forward_dot_body_shape(1) by simp
next
  case Multiply
  then show ?thesis using assms nary_forward_dot_step forward_dot_body_shape(2) by simp
next
  case Softmax
  then show ?thesis using assms nary_forward_dot_step forward_dot_body_shape(3) by simp
qed (use assms in \<open>auto simp: UnaryOp_forward_dot_step BinaryOp_forward_dot_step
       Max_forward_dot_step tangent_step_refl tangent_step_touch\<close>)

lemma OpTraits_forward_dot_tag:
  assumes "arity_ok opr (heap st n)" "writes_own_slot opr"
    "OpTraits_forward_dot opr n st = Inr st'"
  shows "dot_epoch (heap st' n) = cur_dot_epoch (graph st)
       \<and> val_epoch (heap st' n) = cur_val_epoch (graph st)"
proof (cases opr)
  case Add
  then show ?thesis using assms nary_forward_dot_tag forward_dot_body_shape(1) by simp
next
  case Multiply
  then show ?thesis using assms nary_forward_dot_tag forward_dot_body_shape(2) by simp
next
  case Softmax
  then show ?thesis using assms nary_forward_dot_tag forward_dot_body_shape(3) by simp
qed (use assms in \<open>auto simp: UnaryOp_forward_dot_tag BinaryOp_forward_dot_tag
       Max_forward_dot_tag dot_tags_touch\<close>)

subsection \<open>The accumulators that the reverse passes write\<close>

lemma nary_reverse_targets:
  assumes "nary_pass body n st = Inr st'" and "nary_ok (heap st n)"
    and "\<And>as. adj_step (set as) st (body as n st) \<and> (\<forall>a\<in>set as. L (body as n st) a)"
  shows "adj_step (input_set st n) st st' \<and> (\<forall>a\<in>input_set st n. L st' a)"
proof -
  from nary_pass_Inr [OF assms(1)] assms(2) obtain as
    where as: "inputs (heap st n) = map Some as" "st' = body as n st"
    by (auto simp: nary_ok_def)
  show ?thesis using assms(3) [of as] as by (simp add: input_set_map_Some)
qed

lemma OpTraits_backward_targets:
  assumes ar: "arity_ok opr (heap st n)" and run: "OpTraits_backward opr n st = Inr st'"
  shows "adj_step (reverse_targets opr st n) st st'
       \<and> (\<forall>a\<in>reverse_targets opr st n. grad_live st' a)"
proof -
  have un: "\<And>R. unary_ok (heap st n) \<Longrightarrow>
      adj_step (input_set st n) st (UnaryOp_backward R n st)
    \<and> (\<forall>a\<in>input_set st n. grad_live (UnaryOp_backward R n st) a)"
    by (auto simp: unary_ok_iff UnaryOp_backward_step UnaryOp_backward_live unary_inputs)
  have bi: "\<And>R. binary_ok (heap st n) \<Longrightarrow>
      adj_step (input_set st n) st (BinaryOp_backward R n st)
    \<and> (\<forall>a\<in>input_set st n. grad_live (BinaryOp_backward R n st) a)"
    by (auto simp: binary_ok_iff BinaryOp_backward_step BinaryOp_backward_live binary_inputs)
  show ?thesis
  proof (cases opr)
    case Add
    then show ?thesis
      using ar run nary_reverse_targets [where L = grad_live and body = Add_backward_body]
      by (simp add: Add_backward_step Add_backward_live)
  next
    case Multiply
    then show ?thesis
      using ar run nary_reverse_targets [where L = grad_live and body = Multiply_backward_body]
      by (simp add: Multiply_backward_step Multiply_backward_live)
  next
    case Softmax
    then show ?thesis
      using ar run nary_reverse_targets [where L = grad_live and body = Softmax_backward_body]
      by (simp add: Softmax_backward_step Softmax_backward_live)
  next
    case MaxOp
    then show ?thesis using ar run Max_backward_only_winner [of st n] Max_backward_live [of st n]
      by auto
  qed (use ar run un bi in \<open>auto simp: adj_step_refl\<close>)
qed

lemma OpTraits_hvp_backward_targets:
  assumes ar: "arity_ok opr (heap st n)" and run: "OpTraits_hvp_backward opr n st = Inr st'"
  shows "adj_step (reverse_targets opr st n) st st'
       \<and> (\<forall>a\<in>reverse_targets opr st n. grad_live st' a \<and> gdot_live st' a)"
proof -
  let ?L = "\<lambda>s a. grad_live s a \<and> gdot_live s a"
  have un: "\<And>R. unary_ok (heap st n) \<Longrightarrow>
      adj_step (input_set st n) st (UnaryOp_hvp_backward R n st)
    \<and> (\<forall>a\<in>input_set st n. ?L (UnaryOp_hvp_backward R n st) a)"
    by (auto simp: unary_ok_iff UnaryOp_hvp_backward_step UnaryOp_hvp_backward_live unary_inputs)
  have bi: "\<And>R. binary_ok (heap st n) \<Longrightarrow>
      adj_step (input_set st n) st (BinaryOp_hvp_backward R n st)
    \<and> (\<forall>a\<in>input_set st n. ?L (BinaryOp_hvp_backward R n st) a)"
    by (auto simp: binary_ok_iff BinaryOp_hvp_backward_step BinaryOp_hvp_backward_live
        binary_inputs)
  show ?thesis
  proof (cases opr)
    case Add
    then show ?thesis
      using ar run nary_reverse_targets [where L = ?L and body = Add_hvp_backward_body]
      by (simp add: Add_hvp_backward_step Add_hvp_backward_live)
  next
    case Multiply
    then show ?thesis
      using ar run nary_reverse_targets [where L = ?L and body = Multiply_hvp_backward_body]
      by (simp add: Multiply_hvp_backward_step Multiply_hvp_backward_live)
  next
    case Softmax
    then show ?thesis
      using ar run nary_reverse_targets [where L = ?L and body = Softmax_hvp_backward_body]
      by (simp add: Softmax_hvp_backward_step Softmax_hvp_backward_live)
  next
    case MaxOp
    then show ?thesis
      using ar run Max_hvp_backward_only_winner [of st n] Max_hvp_backward_live [of st n]
      by auto
  qed (use ar run un bi in \<open>auto simp: adj_step_refl\<close>)
qed

text \<open>
  C10. For every operator, backward and hvp_backward leave the visited node
  itself (its four slots and its four epoch tags) unchanged, provided the node
  is not one of its own inputs (the inputs form a DAG): the passes change
  nothing but the reverse accumulators of the node's inputs. Both passes
  return a state whenever no input handle is null.
\<close>

theorem reverse_passes_keep_visited_node:
  assumes "Some n \<notin> set (inputs (heap st n))"
  shows "(\<forall>st'. OpTraits_backward opr n st = Inr st' \<longrightarrow>
            adj_step (input_set st n) st st' \<and> heap st' n = heap st n)
       \<and> (\<forall>st'. OpTraits_hvp_backward opr n st = Inr st' \<longrightarrow>
            adj_step (input_set st n) st st' \<and> heap st' n = heap st n)
       \<and> (None \<notin> set (inputs (heap st n)) \<longrightarrow>
            (\<exists>s1 s2. OpTraits_backward opr n st = Inr s1
                   \<and> OpTraits_hvp_backward opr n st = Inr s2))"
proof -
  have out: "n \<notin> input_set st n" using assms by (simp add: input_set_def)
  have keep: "adj_step (input_set st n) st st' \<Longrightarrow> heap st' n = heap st n" for st'
    using out by (simp add: adj_step_def)
  show ?thesis
    using OpTraits_backward_step [of opr n st] OpTraits_hvp_backward_step [of opr n st] keep
      OpTraits_total(3,4) [of st n opr]
    by blast
qed

theorem reverse_passes_keep_visited_node_witness:
  "Some 2 \<notin> set (inputs (heap (ex_binary Multiply) 2))
   \<and> None \<notin> set (inputs (heap (ex_binary Multiply) 2))
   \<and> (\<exists>s1 s2. OpTraits_backward Multiply 2 (ex_binary Multiply) = Inr s1
            \<and> OpTraits_hvp_backward Multiply 2 (ex_binary Multiply) = Inr s2
            \<and> heap s1 2 = heap (ex_binary Multiply) 2
            \<and> heap s2 2 = heap (ex_binary Multiply) 2
            \<and> gradient (heap s1 2) = 1 \<and> gradient (heap s2 2) = 1)"
proof -
  let ?st = "ex_binary Multiply"
  have h: "Some 2 \<notin> set (inputs (heap ?st 2))" by (simp add: ex_defs)
  have nn: "None \<notin> set (inputs (heap ?st 2))" by (simp add: ex_defs)
  note T = reverse_passes_keep_visited_node [OF h, of Multiply]
  from T nn obtain s1 s2 where r:
    "OpTraits_backward Multiply 2 ?st = Inr s1" "OpTraits_hvp_backward Multiply 2 ?st = Inr s2"
    by blast
  from T r have k: "heap s1 2 = heap ?st 2" "heap s2 2 = heap ?st 2" by blast+
  have "gradient (heap ?st 2) = 1" by (simp add: ex_defs)
  then show ?thesis using h nn r k by simp
qed

subsection \<open>Epoch tags of written slots\<close>

text \<open>
  C4. For every pass function of every operator and every node that satisfies
  the operator's arity predicate: after the pass has run on the node, every
  slot that the pass wrote has its epoch tag equal to the graph's current
  counter for that pass. The forward passes of a specialised tag write the
  node's own value (tangent) slot; the reverse passes write the gradient
  (and grad_dot) accumulators of \<open>reverse_targets\<close> and change no other node; no
  pass changes a graph counter. All four passes return whenever no input
  handle is null.
\<close>

theorem passes_mark_written_slots_live:
  assumes ar: "arity_ok opr (heap st n)"
  shows "(\<forall>st'. OpTraits_forward opr n st = Inr st' \<longrightarrow>
            graph st' = graph st
          \<and> (writes_own_slot opr \<longrightarrow> val_epoch (heap st' n) = cur_val_epoch (graph st')))
       \<and> (\<forall>st'. OpTraits_forward_dot opr n st = Inr st' \<longrightarrow>
            graph st' = graph st
          \<and> (writes_own_slot opr \<longrightarrow> dot_epoch (heap st' n) = cur_dot_epoch (graph st')
                                    \<and> val_epoch (heap st' n) = cur_val_epoch (graph st')))
       \<and> (\<forall>st'. OpTraits_backward opr n st = Inr st' \<longrightarrow>
            graph st' = graph st
          \<and> (\<forall>a\<in>reverse_targets opr st n.
                grad_epoch (heap st' a) = cur_grad_epoch (graph st'))
          \<and> (\<forall>c. c \<notin> reverse_targets opr st n \<longrightarrow> heap st' c = heap st c))
       \<and> (\<forall>st'. OpTraits_hvp_backward opr n st = Inr st' \<longrightarrow>
            graph st' = graph st
          \<and> (\<forall>a\<in>reverse_targets opr st n.
                grad_epoch (heap st' a) = cur_grad_epoch (graph st')
              \<and> gdot_epoch (heap st' a) = cur_gdot_epoch (graph st'))
          \<and> (\<forall>c. c \<notin> reverse_targets opr st n \<longrightarrow> heap st' c = heap st c))
       \<and> (None \<notin> set (inputs (heap st n)) \<longrightarrow>
            (\<exists>s1 s2 s3 s4. OpTraits_forward opr n st = Inr s1
                         \<and> OpTraits_forward_dot opr n st = Inr s2
                         \<and> OpTraits_backward opr n st = Inr s3
                         \<and> OpTraits_hvp_backward opr n st = Inr s4))"
proof -
  have f: "OpTraits_forward opr n st = Inr st' \<Longrightarrow>
            graph st' = graph st
          \<and> (writes_own_slot opr \<longrightarrow> val_epoch (heap st' n) = cur_val_epoch (graph st'))" for st'
    using OpTraits_forward_step [of opr n st st'] OpTraits_forward_tag [OF ar, of st']
    by (simp add: value_step_def)
  have d: "OpTraits_forward_dot opr n st = Inr st' \<Longrightarrow>
            graph st' = graph st
          \<and> (writes_own_slot opr \<longrightarrow> dot_epoch (heap st' n) = cur_dot_epoch (graph st')
                                    \<and> val_epoch (heap st' n) = cur_val_epoch (graph st'))" for st'
    using OpTraits_forward_dot_step [of opr n st st'] OpTraits_forward_dot_tag [OF ar, of st']
    by (simp add: tangent_step_def)
  have b: "OpTraits_backward opr n st = Inr st' \<Longrightarrow>
            graph st' = graph st
          \<and> (\<forall>a\<in>reverse_targets opr st n.
                grad_epoch (heap st' a) = cur_grad_epoch (graph st'))
          \<and> (\<forall>c. c \<notin> reverse_targets opr st n \<longrightarrow> heap st' c = heap st c)" for st'
    using OpTraits_backward_targets [OF ar, of st']
    by (simp add: adj_step_def grad_live_def)
  have h: "OpTraits_hvp_backward opr n st = Inr st' \<Longrightarrow>
            graph st' = graph st
          \<and> (\<forall>a\<in>reverse_targets opr st n.
                grad_epoch (heap st' a) = cur_grad_epoch (graph st')
              \<and> gdot_epoch (heap st' a) = cur_gdot_epoch (graph st'))
          \<and> (\<forall>c. c \<notin> reverse_targets opr st n \<longrightarrow> heap st' c = heap st c)" for st'
    using OpTraits_hvp_backward_targets [OF ar, of st']
    by (simp add: adj_step_def grad_live_def gdot_live_def)
  have t: "None \<notin> set (inputs (heap st n)) \<Longrightarrow>
            (\<exists>s1 s2 s3 s4. OpTraits_forward opr n st = Inr s1
                         \<and> OpTraits_forward_dot opr n st = Inr s2
                         \<and> OpTraits_backward opr n st = Inr s3
                         \<and> OpTraits_hvp_backward opr n st = Inr s4)"
    using OpTraits_total [of st n opr] by blast
  show ?thesis using f d b h t by blast
qed

theorem passes_mark_written_slots_live_witness:
  "arity_ok Multiply (heap (ex_binary Multiply) 2)
   \<and> None \<notin> set (inputs (heap (ex_binary Multiply) 2))
   \<and> writes_own_slot Multiply
   \<and> reverse_targets Multiply (ex_binary Multiply) 2 = {0, 1}
   \<and> (\<exists>s1 s2 s3 s4.
          OpTraits_forward Multiply 2 (ex_binary Multiply) = Inr s1
        \<and> OpTraits_forward_dot Multiply 2 (ex_binary Multiply) = Inr s2
        \<and> OpTraits_backward Multiply 2 (ex_binary Multiply) = Inr s3
        \<and> OpTraits_hvp_backward Multiply 2 (ex_binary Multiply) = Inr s4
        \<and> val_epoch (heap s1 2) = 1 \<and> dot_epoch (heap s2 2) = 1
        \<and> grad_epoch (heap s3 0) = 1 \<and> grad_epoch (heap s3 1) = 1
        \<and> grad_epoch (heap s4 0) = 1 \<and> grad_epoch (heap s4 1) = 1
        \<and> gdot_epoch (heap s4 0) = 1 \<and> gdot_epoch (heap s4 1) = 1)"
proof -
  let ?st = "ex_binary Multiply"
  have ar: "arity_ok Multiply (heap ?st 2)" by (simp add: ex_defs nary_ok_def)
  have nn: "None \<notin> set (inputs (heap ?st 2))" by (simp add: ex_defs)
  have w: "writes_own_slot Multiply" by simp
  have rt: "reverse_targets Multiply ?st 2 = {0, 1}"
    by (auto simp: input_set_def ex_defs)
  have g: "graph ?st = ex_graph" by (simp add: ex_defs)
  note T = passes_mark_written_slots_live [OF ar]
  from T nn obtain s1 s2 s3 s4 where r:
    "OpTraits_forward Multiply 2 ?st = Inr s1" "OpTraits_forward_dot Multiply 2 ?st = Inr s2"
    "OpTraits_backward Multiply 2 ?st = Inr s3" "OpTraits_hvp_backward Multiply 2 ?st = Inr s4"
    by blast
  from T r(1) w have 1: "graph s1 = graph ?st" "val_epoch (heap s1 2) = cur_val_epoch (graph s1)"
    by blast+
  from T r(2) w have 2: "graph s2 = graph ?st" "dot_epoch (heap s2 2) = cur_dot_epoch (graph s2)"
    by blast+
  from T r(3) have 3: "graph s3 = graph ?st"
    "\<forall>a\<in>reverse_targets Multiply ?st 2. grad_epoch (heap s3 a) = cur_grad_epoch (graph s3)"
    by blast+
  from T r(4) have 4: "graph s4 = graph ?st"
    "\<forall>a\<in>reverse_targets Multiply ?st 2.
        grad_epoch (heap s4 a) = cur_grad_epoch (graph s4)
      \<and> gdot_epoch (heap s4 a) = cur_gdot_epoch (graph s4)"
    by blast+
  have "val_epoch (heap s1 2) = 1" "dot_epoch (heap s2 2) = 1"
    "grad_epoch (heap s3 0) = 1" "grad_epoch (heap s3 1) = 1"
    "grad_epoch (heap s4 0) = 1" "grad_epoch (heap s4 1) = 1"
    "gdot_epoch (heap s4 0) = 1" "gdot_epoch (heap s4 1) = 1"
    using 1 2 3 4 unfolding rt g by (simp_all add: ex_graph_def)
  then show ?thesis using ar nn w rt r by blast
qed

subsection \<open>Add with two inputs\<close>

lemma Add_forward_binary:
  assumes ab: "inputs (heap st n) = [Some a, Some b]"
  shows "OpTraits_forward Add n st = Inr (BinaryOp_forward AddRule n st)"
proof -
  have m: "inputs (heap st n) = map Some [a, b]" using ab by simp
  note ia = binary_inputs [OF ab]
  have "Add_forward_body [a, b] n st = BinaryOp_forward AddRule n st"
    using ia by (simp add: Add_forward_body_def BinaryOp_forward_def AddRule_def Let_def)
  then show ?thesis using nary_pass_run [OF m] by simp
qed

lemma Add_forward_dot_binary:
  assumes ab: "inputs (heap st n) = [Some a, Some b]"
  shows "OpTraits_forward_dot Add n st = Inr (BinaryOp_forward_dot AddRule n st)"
proof -
  have m: "inputs (heap st n) = map Some [a, b]" using ab by simp
  note ia = binary_inputs [OF ab]
  have "Add_forward_dot_body [a, b] n st = BinaryOp_forward_dot AddRule n st"
    using ia
    by (simp add: Add_forward_dot_body_def BinaryOp_forward_dot_def AddRule_def Let_def)
  then show ?thesis using nary_pass_run [OF m] by simp
qed

lemma Add_backward_binary:
  assumes ab: "inputs (heap st n) = [Some a, Some b]" and na: "n \<noteq> a"
  shows "OpTraits_backward Add n st = Inr (BinaryOp_backward AddRule n st)"
proof -
  have m: "inputs (heap st n) = map Some [a, b]" using ab by simp
  note ia = binary_inputs [OF ab]
  have "Add_backward_body [a, b] n st = BinaryOp_backward AddRule n st"
    using ia na
    by (simp add: Add_backward_body_def BinaryOp_backward_def AddRule_def Let_def
        acc_grad_fields)
  then show ?thesis using nary_pass_run [OF m] by simp
qed

lemma Add_hvp_backward_binary:
  assumes ab: "inputs (heap st n) = [Some a, Some b]" and na: "n \<noteq> a" and nb: "n \<noteq> b"
  shows "OpTraits_hvp_backward Add n st = Inr (BinaryOp_hvp_backward AddRule n st)"
proof -
  have m: "inputs (heap st n) = map Some [a, b]" using ab by simp
  note ia = binary_inputs [OF ab]
  define w where "w = gradient (heap st n)"
  define wd where "wd = grad_dot (heap st n)"
  have L: "Add_hvp_backward_body [a, b] n st
           = acc_gdot b wd (acc_grad b w (acc_gdot a wd (acc_grad a w st)))"
    using na nb
    by (simp add: Add_hvp_backward_body_def Let_def acc_grad_fields acc_gdot_fields w_def wd_def)
  have R: "BinaryOp_hvp_backward AddRule n st
           = add_gdot b wd (add_gdot a wd (add_grad b w (add_grad a w
               (zero_gdot b (zero_gdot a (zero_grad b (zero_grad a st)))))))"
    using ia na nb
    by (simp add: BinaryOp_hvp_backward_def Let_def AddRule_def zero_grad_fields
        zero_gdot_fields w_def wd_def)
  have "acc_gdot b wd (acc_grad b w (acc_gdot a wd (acc_grad a w st)))
        = add_gdot b wd (add_gdot a wd (add_grad b w (add_grad a w
               (zero_gdot b (zero_gdot a (zero_grad b (zero_grad a st)))))))"
    by (rule state_eqI) (auto simp: slot_fields live_grad_def live_gdot_def)
  then show ?thesis using nary_pass_run [OF m] L R by simp
qed


text \<open>
  On valid handles the two agree: for an Add node with exactly two inputs, both
  handles not null and neither of them the node itself (the inputs form a
  DAG), each of the four pass functions of the n-ary Add specialisation
  returns exactly the state (all slot values and epoch tags) that the generic
  binary template instantiated with AddRule produces on the same node and
  state.
\<close>

lemma Add_two_inputs_agree:
  assumes ab: "inputs (heap st n) = [Some a, Some b]" and na: "n \<noteq> a" and nb: "n \<noteq> b"
  shows "OpTraits_forward Add n st = Inr (BinaryOp_forward AddRule n st)
       \<and> OpTraits_forward_dot Add n st = Inr (BinaryOp_forward_dot AddRule n st)
       \<and> OpTraits_backward Add n st = Inr (BinaryOp_backward AddRule n st)
       \<and> OpTraits_hvp_backward Add n st = Inr (BinaryOp_hvp_backward AddRule n st)"
  using Add_forward_binary [OF ab] Add_forward_dot_binary [OF ab] Add_backward_binary [OF ab na]
    Add_hvp_backward_binary [OF ab na nb]
  by simp

text \<open>
  C8. The claim does not hold on an Add node with two inputs one of which is
  null: the binary template, guarded by \<^verbatim>\<open>_binary_ok\<close>, returns the state
  unchanged in each of the four passes, while the n-ary specialisation, guarded
  by \<^verbatim>\<open>_nary_ok\<close> only, dereferences the null handle in each of them: the
  null test that \<^verbatim>\<open>_unary_ok\<close> and \<^verbatim>\<open>_binary_ok\<close> make is missing from
  \<^verbatim>\<open>_nary_ok\<close>.
\<close>

theorem Add_null_input_differs_from_binary:
  "length (inputs (heap (ex_null Add) 2)) = 2
   \<and> OpTraits_forward Add 2 (ex_null Add) = Inl NullDeref
   \<and> OpTraits_forward_dot Add 2 (ex_null Add) = Inl NullDeref
   \<and> OpTraits_backward Add 2 (ex_null Add) = Inl NullDeref
   \<and> OpTraits_hvp_backward Add 2 (ex_null Add) = Inl NullDeref
   \<and> BinaryOp_forward AddRule 2 (ex_null Add) = ex_null Add
   \<and> BinaryOp_forward_dot AddRule 2 (ex_null Add) = ex_null Add
   \<and> BinaryOp_backward AddRule 2 (ex_null Add) = ex_null Add
   \<and> BinaryOp_hvp_backward AddRule 2 (ex_null Add) = ex_null Add
   \<and> OpTraits_forward Add 2 (ex_null Add) \<noteq> Inr (BinaryOp_forward AddRule 2 (ex_null Add))
   \<and> OpTraits_forward_dot Add 2 (ex_null Add)
       \<noteq> Inr (BinaryOp_forward_dot AddRule 2 (ex_null Add))
   \<and> OpTraits_backward Add 2 (ex_null Add) \<noteq> Inr (BinaryOp_backward AddRule 2 (ex_null Add))
   \<and> OpTraits_hvp_backward Add 2 (ex_null Add)
       \<noteq> Inr (BinaryOp_hvp_backward AddRule 2 (ex_null Add))"
proof -
  have n: "None \<in> set (inputs (heap (ex_null Add) 2))" by (simp add: ex_defs)
  have b: "\<not> binary_ok (heap (ex_null Add) 2)" by (simp add: ex_defs binary_ok_def)
  have l: "length (inputs (heap (ex_null Add) 2)) = 2" by (simp add: ex_defs)
  show ?thesis using nary_pass_null [OF n] binary_guard_noop [OF b] l by simp
qed

subsection \<open>N-ary product: the second-order reverse pass\<close>

lemma build_prefix_upto:
  fixes vals :: "real list"
  assumes "k \<le> length vals"
  shows "length (fold (\<lambda>i pre. pre[Suc i := pre ! i * vals ! i]) [0..<k]
                  (replicate (length vals + 1) 1)) = length vals + 1
       \<and> (\<forall>j\<le>k. fold (\<lambda>i pre. pre[Suc i := pre ! i * vals ! i]) [0..<k]
                  (replicate (length vals + 1) 1) ! j = prod_list (take j vals))"
  using assms
proof (induction k)
  case 0
  then show ?case by simp
next
  case (Suc k)
  let ?P = "fold (\<lambda>i pre. pre[Suc i := pre ! i * vals ! i]) [0..<k]
              (replicate (length vals + 1) 1)"
  from Suc have len: "length ?P = length vals + 1"
    and val: "\<forall>j\<le>k. ?P ! j = prod_list (take j vals)" by simp_all
  have k: "k < length vals" using Suc.prems by simp
  have step: "fold (\<lambda>i pre. pre[Suc i := pre ! i * vals ! i]) [0..<Suc k]
              (replicate (length vals + 1) 1) = ?P[Suc k := ?P ! k * vals ! k]"
    by simp
  have "(?P[Suc k := ?P ! k * vals ! k]) ! j = prod_list (take j vals)" if "j \<le> Suc k" for j
  proof (cases "j = Suc k")
    case True
    have "(?P[Suc k := ?P ! k * vals ! k]) ! Suc k = ?P ! k * vals ! k"
      using len k by simp
    also have "\<dots> = prod_list (take k vals) * vals ! k" using val by simp
    also have "\<dots> = prod_list (take (Suc k) vals)"
      using k by (simp add: take_Suc_conv_app_nth)
    finally show ?thesis using True by simp
  next
    case False
    then have "j \<le> k" using that by simp
    then show ?thesis using val False by simp
  qed
  then show ?case unfolding step using len by simp
qed

lemma build_prefix_nth:
  "j \<le> length vals \<Longrightarrow> build_prefix vals ! j = prod_list (take j vals)"
  using build_prefix_upto [of "length vals" vals] by (simp add: build_prefix_def)

lemma build_suffix_from:
  fixes vals :: "real list"
  assumes "k \<le> length vals"
  shows "length (foldr (\<lambda>i suf. suf[i := suf ! Suc i * vals ! i]) [length vals - k..<length vals]
                  (replicate (length vals + 1) 1)) = length vals + 1
       \<and> (\<forall>j. length vals - k \<le> j \<and> j \<le> length vals \<longrightarrow>
             foldr (\<lambda>i suf. suf[i := suf ! Suc i * vals ! i]) [length vals - k..<length vals]
                  (replicate (length vals + 1) 1) ! j = prod_list (drop j vals))"
  using assms
proof (induction k)
  case 0
  have "replicate (length vals + 1) (1::real) ! length vals = 1"
    by (rule nth_replicate) simp
  then show ?case by (auto simp del: replicate.simps replicate_Suc)
next
  case (Suc k)
  let ?m = "length vals"
  let ?g = "\<lambda>i suf. suf[i := suf ! Suc i * vals ! i]"
  let ?S = "foldr ?g [?m - k..<?m] (replicate (?m + 1) 1)"
  from Suc have len: "length ?S = ?m + 1"
    and val: "\<forall>j. ?m - k \<le> j \<and> j \<le> ?m \<longrightarrow> ?S ! j = prod_list (drop j vals)" by simp_all
  define i where "i = ?m - Suc k"
  have i: "i < ?m" "Suc i = ?m - k" using Suc.prems by (simp_all add: i_def)
  have "[i..<?m] = i # [Suc i..<?m]" using i by (simp add: upt_conv_Cons)
  then have step: "foldr ?g [i..<?m] (replicate (?m + 1) 1) = ?S[i := ?S ! Suc i * vals ! i]"
    using i by simp
  have "(?S[i := ?S ! Suc i * vals ! i]) ! j = prod_list (drop j vals)"
    if "i \<le> j" "j \<le> ?m" for j
  proof (cases "j = i")
    case True
    have "(?S[i := ?S ! Suc i * vals ! i]) ! i = ?S ! Suc i * vals ! i"
      using len i by simp
    also have "\<dots> = prod_list (drop (Suc i) vals) * vals ! i" using val i by simp
    also have "\<dots> = prod_list (drop i vals)"
      using i by (simp add: Cons_nth_drop_Suc [symmetric])
    finally show ?thesis using True by simp
  next
    case False
    then have "?m - k \<le> j" using that i by simp
    then show ?thesis using val False that by simp
  qed
  then show ?case unfolding i_def [symmetric] step using len by simp
qed

lemma build_suffix_nth:
  "j \<le> length vals \<Longrightarrow> build_suffix vals ! j = prod_list (drop j vals)"
  using build_suffix_from [of "length vals" vals]
  by (simp add: build_suffix_def foldr_conv_fold)

lemma prod_list_take_nth:
  fixes vals :: "real list"
  shows "j \<le> length vals \<Longrightarrow> prod_list (take j vals) = (\<Prod>l<j. vals ! l)"
  by (simp add: prod.list_conv_set_nth atLeast0LessThan min_def)

lemma prod_list_drop_nth:
  fixes vals :: "real list"
  assumes "j \<le> length vals"
  shows "prod_list (drop j vals) = (\<Prod>l\<in>{j..<length vals}. vals ! l)"
proof -
  have "prod_list (drop j vals) = (\<Prod>i = 0..<length vals - j. vals ! (j + i))"
    using assms by (simp add: prod.list_conv_set_nth)
  also have "\<dots> = (\<Prod>l\<in>{j..<length vals}. vals ! l)"
    using assms prod.shift_bounds_nat_ivl [of "\<lambda>l. vals ! l" 0 j "length vals - j"]
    by (simp add: add.commute)
  finally show ?thesis .
qed

lemma mid_prod_loop_eq:
  "mid_prod_loop vals t b mp = mp * (\<Prod>l\<in>{t..<b}. vals ! l)"
proof (induction vals t b mp rule: mid_prod_loop.induct)
  case (1 vals t b mp)
  show ?case
  proof (cases "t < b")
    case False
    then show ?thesis by (subst mid_prod_loop.simps) simp
  next
    case True
    then have split: "(\<Prod>l\<in>{t..<b}. vals ! l) = vals ! t * (\<Prod>l\<in>{Suc t..<b}. vals ! l)"
      by (simp add: prod.atLeast_Suc_lessThan)
    show ?thesis
    proof (cases "mp * vals ! t = 0")
      case z: True
      then have r: "mp * (\<Prod>l\<in>{t..<b}. vals ! l) = 0"
        unfolding split by (metis mult.assoc mult_zero_left)
      have l: "mid_prod_loop vals t b mp = 0"
        using True z by (subst mid_prod_loop.simps) (simp only: Let_def if_True refl)
      show ?thesis unfolding l r ..
    next
      case nz: False
      have "mid_prod_loop vals t b mp = mid_prod_loop vals (t + 1) b (mp * vals ! t)"
        using True nz by (subst mid_prod_loop.simps) (simp add: Let_def)
      also have "\<dots> = mp * vals ! t * (\<Prod>l\<in>{t + 1..<b}. vals ! l)"
        using "1.IH" [OF True refl nz] .
      finally show ?thesis unfolding split by (simp add: mult.assoc)
    qed
  qed
qed

lemma prod_split3:
  fixes g :: "nat \<Rightarrow> real"
  assumes "a < b" "b < m"
  shows "(\<Prod>l\<in>{..<m} - {a, b}. g l)
         = (\<Prod>l<a. g l) * (\<Prod>l\<in>{Suc a..<b}. g l) * (\<Prod>l\<in>{Suc b..<m}. g l)"
proof -
  have set: "{..<m} - {a, b} = ({..<a} \<union> {Suc a..<b}) \<union> {Suc b..<m}"
    using assms by auto
  have "(\<Prod>l\<in>({..<a} \<union> {Suc a..<b}) \<union> {Suc b..<m}. g l)
        = (\<Prod>l\<in>{..<a} \<union> {Suc a..<b}. g l) * (\<Prod>l\<in>{Suc b..<m}. g l)"
    using assms by (intro prod.union_disjoint) auto
  also have "(\<Prod>l\<in>{..<a} \<union> {Suc a..<b}. g l) = (\<Prod>l<a. g l) * (\<Prod>l\<in>{Suc a..<b}. g l)"
    by (intro prod.union_disjoint) auto
  finally show ?thesis unfolding set .
qed

lemma prod_split2:
  fixes g :: "nat \<Rightarrow> real"
  assumes "i < m"
  shows "(\<Prod>l\<in>{..<m} - {i}. g l) = (\<Prod>l<i. g l) * (\<Prod>l\<in>{Suc i..<m}. g l)"
proof -
  have set: "{..<m} - {i} = {..<i} \<union> {Suc i..<m}" using assms by auto
  show ?thesis unfolding set by (intro prod.union_disjoint) auto
qed

lemma P_wo_i_eq:
  fixes vals :: "real list"
  assumes "i < length vals"
  shows "build_prefix vals ! i * build_suffix vals ! (i + 1)
         = (\<Prod>j\<in>{..<length vals} - {i}. vals ! j)"
  using assms
  by (simp add: build_prefix_nth build_suffix_nth prod_list_take_nth prod_list_drop_nth
      prod_split2)

lemma excluded_pair_ordered:
  fixes vals :: "real list"
  assumes "a < b" "b < length vals"
  shows "build_prefix vals ! a * mid_prod_loop vals (a + 1) b 1 * build_suffix vals ! (b + 1)
         = (\<Prod>l\<in>{..<length vals} - {a, b}. vals ! l)"
  using assms
  by (simp add: build_prefix_nth build_suffix_nth prod_list_take_nth prod_list_drop_nth
      mid_prod_loop_eq prod_split3)

lemma excluded_pair_eq:
  fixes vals :: "real list"
  assumes "i < length vals" "k < length vals" "i \<noteq> k"
  shows "excluded_pair vals (build_prefix vals) (build_suffix vals) i k
         = (\<Prod>l\<in>{..<length vals} - {i, k}. vals ! l)"
proof (cases "i < k")
  case True
  then show ?thesis
    using excluded_pair_ordered [of i k vals] assms by (simp add: excluded_pair_def Let_def)
next
  case False
  then have "k < i" using assms by simp
  moreover have "{i, k} = {k, i}" by auto
  ultimately show ?thesis
    using excluded_pair_ordered [of k i vals] assms False
    by (simp add: excluded_pair_def Let_def)
qed

lemma foldl_skip_sum:
  "foldl (\<lambda>acc k. if k = i then acc else acc + (g k :: real)) z ks
   = z + sum_list (map g (filter (\<lambda>k. k \<noteq> i) ks))"
  by (induction ks arbitrary: z) simp_all

lemma sum_list_filter_upt:
  "sum_list (map (g :: nat \<Rightarrow> real) (filter P [0..<m])) = (\<Sum>k\<in>{k. k < m \<and> P k}. g k)"
proof -
  have "distinct (filter P [0..<m])" by simp
  then have A: "sum_list (map g (filter P [0..<m])) = sum g (set (filter P [0..<m]))"
    by (rule sum.distinct_set_conv_list [symmetric])
  have B: "set (filter P [0..<m]) = {k. k < m \<and> P k}" by auto
  show ?thesis unfolding A B ..
qed

lemma sum_term_eq:
  fixes vals dots :: "real list"
  shows "sum_term vals dots (build_prefix vals) (build_suffix vals) i
         = (\<Sum>k\<in>{..<length vals} - {i}.
              dots ! k * excluded_pair vals (build_prefix vals) (build_suffix vals) i k)"
proof -
  have "{k. k < length vals \<and> k \<noteq> i} = {..<length vals} - {i}" by auto
  then show ?thesis
    by (simp add: sum_term_def foldl_skip_sum sum_list_filter_upt)
qed

lemma sum_term_exact:
  fixes vals dots :: "real list"
  assumes "i < length vals"
  shows "sum_term vals dots (build_prefix vals) (build_suffix vals) i
         = (\<Sum>k\<in>{..<length vals} - {i}.
              dots ! k * (\<Prod>l\<in>{..<length vals} - {i, k}. vals ! l))"
  unfolding sum_term_eq
  by (rule sum.cong) (use assms excluded_pair_eq in auto)

lemma hvp_acc_fields:
  "graph (hvp_acc a x y s) = graph s"
  "gradient (heap (hvp_acc a x y s) c) = (if c = a then live_grad s a + x else gradient (heap s c))"
  "grad_dot (heap (hvp_acc a x y s) c) = (if c = a then live_gdot s a + y else grad_dot (heap s c))"
  "live_grad (hvp_acc a x y s) c = (if c = a then live_grad s a + x else live_grad s c)"
  "live_gdot (hvp_acc a x y s) c = (if c = a then live_gdot s a + y else live_gdot s c)"
  by (simp_all add: hvp_acc_def slot_fields live_grad_def live_gdot_def)


lemma adj_step_hvp_acc: "a \<in> A \<Longrightarrow> adj_step A s (hvp_acc a x y s)"
  unfolding hvp_acc_def by (intro adj_step_peel adj_step_refl)

lemma adj_step_node: "adj_step A st s \<Longrightarrow> n \<notin> A \<Longrightarrow> heap s n = heap st n"
  by (simp add: adj_step_def)

lemma fold_cong_adj:
  assumes "adj_step A st s0"
    and "\<And>x s. x \<in> set xs \<Longrightarrow> adj_step A st s \<Longrightarrow> f x s = g x s"
    and "\<And>x s. x \<in> set xs \<Longrightarrow> adj_step A s (g x s)"
  shows "fold f xs s0 = fold g xs s0"
  using assms
proof (induction xs arbitrary: s0)
  case Nil
  then show ?case by simp
next
  case (Cons x xs)
  have e: "f x s0 = g x s0" using Cons.prems by simp
  have "adj_step A st (g x s0)"
    using adj_step_trans_same [OF Cons.prems(1)] Cons.prems(3) by simp
  then have "fold f xs (g x s0) = fold g xs (g x s0)"
    using Cons.IH Cons.prems(2,3) by simp
  then show ?case using e by simp
qed

lemma fold_hvp_acc_live:
  "live_grad (fold (\<lambda>i. hvp_acc (t i) (x i) (y i)) js s) c
     = live_grad s c + sum_list (map x (filter (\<lambda>i. t i = c) js))
   \<and> live_gdot (fold (\<lambda>i. hvp_acc (t i) (x i) (y i)) js s) c
     = live_gdot s c + sum_list (map y (filter (\<lambda>i. t i = c) js))"
  by (induction js arbitrary: s) (simp_all add: hvp_acc_fields)

lemma fold_hvp_acc_stored:
  "gradient (heap (fold (\<lambda>i. hvp_acc (t i) (x i) (y i)) js s) c)
     = (if c \<in> t ` set js then live_grad s c + sum_list (map x (filter (\<lambda>i. t i = c) js))
        else gradient (heap s c))
   \<and> grad_dot (heap (fold (\<lambda>i. hvp_acc (t i) (x i) (y i)) js s) c)
     = (if c \<in> t ` set js then live_gdot s c + sum_list (map y (filter (\<lambda>i. t i = c) js))
        else grad_dot (heap s c))"
proof (induction js arbitrary: s)
  case Nil
  then show ?case by simp
next
  case (Cons j js)
  show ?case
  proof (cases "c \<in> t ` set js")
    case True
    then show ?thesis using Cons [of "hvp_acc (t j) (x j) (y j) s"]
      by (simp add: hvp_acc_fields)
  next
    case False
    then have "filter (\<lambda>i. t i = c) js = []" by (auto simp: filter_empty_conv)
    then show ?thesis using Cons [of "hvp_acc (t j) (x j) (y j) s"] False
      by (auto simp: hvp_acc_fields)
  qed
qed

lemma Multiply_hvp_general_fold:
  assumes self: "n \<notin> set as"
  shows "Multiply_hvp_general as n st =
    fold (\<lambda>i. hvp_acc (as ! i)
           (gradient (heap st n)
              * (build_prefix (map (\<lambda>a. node_value (heap st a)) as) ! i
                 * build_suffix (map (\<lambda>a. node_value (heap st a)) as) ! (i + 1)))
           (grad_dot (heap st n)
              * (build_prefix (map (\<lambda>a. node_value (heap st a)) as) ! i
                 * build_suffix (map (\<lambda>a. node_value (heap st a)) as) ! (i + 1))
            + gradient (heap st n)
              * sum_term (map (\<lambda>a. node_value (heap st a)) as) (map (\<lambda>a. dot (heap st a)) as)
                  (build_prefix (map (\<lambda>a. node_value (heap st a)) as))
                  (build_suffix (map (\<lambda>a. node_value (heap st a)) as)) i))
      [0..<length as] st"
  unfolding Multiply_hvp_general_def Let_def build_prefix_suffix_def prod.case
proof (rule fold_cong_adj [where A = "set as" and st = st], goal_cases)
  case 1
  show ?case by (rule adj_step_refl)
next
  case (2 i s)
  then have ne: "n \<noteq> as ! i" using self by auto
  have hn: "heap s n = heap st n" using adj_step_node [OF 2(2) self] .
  show ?case using ne hn
    by (simp add: hvp_acc_def zero_grad_fields zero_gdot_fields add_grad_fields)
next
  case (3 i s)
  then show ?case by (intro adj_step_hvp_acc) simp
qed

text \<open>
  C2. For a Multiply node with \<open>m \<ge> 3\<close> inputs (none of them the node itself)
  holding the values \<open>v\<close> and the tangents \<open>xdot\<close>, hvp_backward returns a state in
  which the grad_dot accumulator of every input node \<open>c\<close> is its live value
  plus, for each position \<open>i\<close> at which \<open>c\<close> occurs,
  \<open>grad_dot\<^sub>n * (\<Prod>j\<noteq>i. v\<^sub>j) + gradient\<^sub>n * (\<Sum>k\<noteq>i. xdot\<^sub>k * (\<Prod>l\<notin>{i,k}. v\<^sub>l))\<close>,
  and the gradient accumulator is its live value plus \<open>gradient\<^sub>n * (\<Prod>j\<noteq>i. v\<^sub>j)\<close>;
  no other node's accumulators change. The excluded-pair product that the code
  forms as \<open>pre[min] * mid * suf[max + 1]\<close>, with the early exit of the middle
  loop, is exactly \<open>\<Prod>l\<notin>{i,k}. v\<^sub>l\<close>, whether or not some \<open>v\<^sub>l\<close> is zero.
\<close>

theorem Multiply_hvp_backward_exact:
  fixes st :: ADState and n m :: nat and as :: "nat list" and v xdot :: "nat \<Rightarrow> real"
    and vals :: "real list"
  assumes inp: "inputs (heap st n) = map Some as"
    and m: "m = length as" and m3: "3 \<le> m"
    and self: "n \<notin> set as"
    and v: "v = (\<lambda>j. node_value (heap st (as ! j)))"
    and xdot: "xdot = (\<lambda>j. dot (heap st (as ! j)))"
    and vals: "vals = map (\<lambda>a. node_value (heap st a)) as"
  shows "\<exists>st'. OpTraits_hvp_backward Multiply n st = Inr st'
     \<and> (\<forall>c. grad_dot (heap st' c) =
          (if c \<in> set as
           then live_gdot st c
                + (\<Sum>i | i < m \<and> as ! i = c.
                     grad_dot (heap st n) * (\<Prod>j\<in>{..<m} - {i}. v j)
                   + gradient (heap st n)
                     * (\<Sum>k\<in>{..<m} - {i}. xdot k * (\<Prod>l\<in>{..<m} - {i, k}. v l)))
           else grad_dot (heap st c)))
     \<and> (\<forall>c. gradient (heap st' c) =
          (if c \<in> set as
           then live_grad st c
                + (\<Sum>i | i < m \<and> as ! i = c. gradient (heap st n) * (\<Prod>j\<in>{..<m} - {i}. v j))
           else gradient (heap st c)))
     \<and> (\<forall>i<m. \<forall>k<m. i \<noteq> k \<longrightarrow>
          excluded_pair vals (build_prefix vals) (build_suffix vals) i k
          = (\<Prod>l\<in>{..<m} - {i, k}. v l))"
proof -
  let ?dots = "map (\<lambda>a. dot (heap st a)) as"
  let ?x = "\<lambda>i. gradient (heap st n) * (build_prefix vals ! i * build_suffix vals ! (i + 1))"
  let ?y = "\<lambda>i. grad_dot (heap st n) * (build_prefix vals ! i * build_suffix vals ! (i + 1))
              + gradient (heap st n)
                * sum_term vals ?dots (build_prefix vals) (build_suffix vals) i"
  let ?X = "\<lambda>i. gradient (heap st n) * (\<Prod>j\<in>{..<m} - {i}. v j)"
  let ?Y = "\<lambda>i. grad_dot (heap st n) * (\<Prod>j\<in>{..<m} - {i}. v j)
              + gradient (heap st n)
                * (\<Sum>k\<in>{..<m} - {i}. xdot k * (\<Prod>l\<in>{..<m} - {i, k}. v l))"
  let ?st' = "fold (\<lambda>i. hvp_acc (as ! i) (?x i) (?y i)) [0..<m] st"
  have len: "length vals = m" using m vals by simp
  have vn: "vals ! j = v j" if "j < m" for j using that m vals v by simp
  have dn: "?dots ! j = xdot j" if "j < m" for j using that m xdot by simp
  have ne: "as \<noteq> []" and m2: "length as \<noteq> 2" using m m3 by auto
  have run: "OpTraits_hvp_backward Multiply n st = Inr ?st'"
    using nary_pass_run [OF inp ne] m2 Multiply_hvp_general_fold [OF self, of st]
    by (simp add: Multiply_hvp_backward_body_def vals m)
  have pc: "(\<Prod>j\<in>A. vals ! j) = (\<Prod>j\<in>A. v j)" if "A \<subseteq> {..<m}" for A
    by (rule prod.cong) (use that vn in auto)
  have P: "build_prefix vals ! i * build_suffix vals ! (i + 1) = (\<Prod>j\<in>{..<m} - {i}. v j)"
    if "i < m" for i
    using P_wo_i_eq [of i vals] that len pc [of "{..<m} - {i}"] by simp
  have E: "excluded_pair vals (build_prefix vals) (build_suffix vals) i k
           = (\<Prod>l\<in>{..<m} - {i, k}. v l)" if "i < m" "k < m" "i \<noteq> k" for i k
    using excluded_pair_eq [of i vals k] that len pc [of "{..<m} - {i, k}"] by simp
  have S: "sum_term vals ?dots (build_prefix vals) (build_suffix vals) i
           = (\<Sum>k\<in>{..<m} - {i}. xdot k * (\<Prod>l\<in>{..<m} - {i, k}. v l))" if "i < m" for i
  proof -
    have "sum_term vals ?dots (build_prefix vals) (build_suffix vals) i
          = (\<Sum>k\<in>{..<m} - {i}. ?dots ! k * (\<Prod>l\<in>{..<m} - {i, k}. vals ! l))"
      using sum_term_exact [of i vals ?dots] that len by simp
    also have "\<dots> = (\<Sum>k\<in>{..<m} - {i}. xdot k * (\<Prod>l\<in>{..<m} - {i, k}. v l))"
      by (rule sum.cong) (use pc dn in auto)
    finally show ?thesis .
  qed
  have xy: "?x i = ?X i" "?y i = ?Y i" if "i < m" for i
    using P [OF that] S [OF that] by simp_all
  have img: "(\<lambda>i. as ! i) ` set [0..<m] = set as"
    using m by (auto simp: in_set_conv_nth)
  have sums: "sum_list (map f (filter (\<lambda>i. as ! i = c) [0..<m]))
              = (\<Sum>i | i < m \<and> as ! i = c. f i)" for f :: "nat \<Rightarrow> real" and c
    by (rule sum_list_filter_upt)
  have cx: "(\<Sum>i | i < m \<and> as ! i = c. ?x i) = (\<Sum>i | i < m \<and> as ! i = c. ?X i)" for c
  proof (rule sum.cong)
    fix i assume "i \<in> {i. i < m \<and> as ! i = c}"
    then have "i < m" by simp
    then show "?x i = ?X i" by (rule xy)
  qed simp
  have cy: "(\<Sum>i | i < m \<and> as ! i = c. ?y i) = (\<Sum>i | i < m \<and> as ! i = c. ?Y i)" for c
  proof (rule sum.cong)
    fix i assume "i \<in> {i. i < m \<and> as ! i = c}"
    then have "i < m" by simp
    then show "?y i = ?Y i" by (rule xy)
  qed simp
  have gd: "grad_dot (heap ?st' c) =
          (if c \<in> set as then live_gdot st c + (\<Sum>i | i < m \<and> as ! i = c. ?Y i)
           else grad_dot (heap st c))" for c
    using fold_hvp_acc_stored [of "\<lambda>i. as ! i" ?x ?y "[0..<m]" st c]
    unfolding img sums cx cy by simp
  have g: "gradient (heap ?st' c) =
          (if c \<in> set as then live_grad st c + (\<Sum>i | i < m \<and> as ! i = c. ?X i)
           else gradient (heap st c))" for c
    using fold_hvp_acc_stored [of "\<lambda>i. as ! i" ?x ?y "[0..<m]" st c]
    unfolding img sums cx cy by simp
  show ?thesis using run gd g E by blast
qed


theorem Multiply_hvp_backward_exact_witness:
  "inputs (heap ex_triple 3) = map Some [0, 1, 2] \<and> (3::nat) = length [0::nat, 1, 2]
   \<and> (3::nat) \<le> 3 \<and> (3::nat) \<notin> set [0, 1, 2]
   \<and> (\<exists>st'. OpTraits_hvp_backward Multiply 3 ex_triple = Inr st'
          \<and> grad_dot (heap st' 1) = 7 \<and> gradient (heap st' 1) = 10
          \<and> gradient (heap st' 0) = 0 \<and> gradient (heap st' 2) = 0)"
proof -
  let ?as = "[0::nat, 1, 2]"
  let ?v = "\<lambda>j. node_value (heap ex_triple (?as ! j))"
  let ?d = "\<lambda>j. dot (heap ex_triple (?as ! j))"
  have inp: "inputs (heap ex_triple 3) = map Some ?as" by (simp add: ex_triple_def ex_defs)
  have m: "(3::nat) = length ?as" by simp
  have m3: "(3::nat) \<le> 3" by simp
  have self: "(3::nat) \<notin> set ?as" by simp
  from Multiply_hvp_backward_exact [OF inp m m3 self refl refl refl] obtain st' where
    run: "OpTraits_hvp_backward Multiply 3 ex_triple = Inr st'"
    and gd: "\<And>c. grad_dot (heap st' c) =
          (if c \<in> set ?as
           then live_gdot ex_triple c
                + (\<Sum>i | i < 3 \<and> ?as ! i = c.
                     grad_dot (heap ex_triple 3) * (\<Prod>j\<in>{..<3} - {i}. ?v j)
                   + gradient (heap ex_triple 3)
                     * (\<Sum>k\<in>{..<3} - {i}. ?d k * (\<Prod>l\<in>{..<3} - {i, k}. ?v l)))
           else grad_dot (heap ex_triple c))"
    and g: "\<And>c. gradient (heap st' c) =
          (if c \<in> set ?as
           then live_grad ex_triple c
                + (\<Sum>i | i < 3 \<and> ?as ! i = c.
                     gradient (heap ex_triple 3) * (\<Prod>j\<in>{..<3} - {i}. ?v j))
           else gradient (heap ex_triple c))"
    by blast
  have pos: "{i. i < 3 \<and> [0, Suc 0, 2] ! i = 0} = {0::nat}"
    "{i. i < 3 \<and> [0, Suc 0, 2] ! i = Suc 0} = {Suc 0}"
    "{i. i < 3 \<and> [0, Suc 0, 2] ! i = 2} = {2::nat}"
    by (auto simp: nth_Cons' less_Suc_eq numeral_3_eq_3)
  have sets: "{..<3} - {0::nat} = {Suc 0, 2}" "{..<3} - {Suc 0} = {0, 2}"
    "{..<3} - {2::nat} = {0, Suc 0}"
    "{..<3} - {Suc 0, 0} = {2}" "{..<3} - {Suc 0, 2} = {0}"
    by auto
  have vals: "?v 0 = 2" "?v 1 = 0" "?v 2 = 5" "?d 0 = 1" "?d 2 = 1"
    "gradient (heap ex_triple 3) = 1" "grad_dot (heap ex_triple 3) = 0"
    "live_gdot ex_triple 1 = 0" "live_grad ex_triple 0 = 0" "live_grad ex_triple 1 = 0"
    "live_grad ex_triple 2 = 0"
    by (simp_all add: ex_triple_def ex_defs live_gdot_def live_grad_def)
  have "grad_dot (heap st' 1) = 7"
    unfolding gd [of 1] using vals by (simp add: pos sets)
  moreover have "gradient (heap st' 1) = 10"
    unfolding g [of 1] using vals by (simp add: pos sets)
  moreover have "gradient (heap st' 0) = 0"
    unfolding g [of 0] using vals by (simp add: pos sets)
  moreover have "gradient (heap st' 2) = 0"
    unfolding g [of 2] using vals by (simp add: pos sets)
  ultimately show ?thesis using inp run by simp
qed

subsection \<open>Reverse gradients against forward tangents\<close>


























































lemma begin_grad_fields:
  "heap (begin_grad_pass st) = heap st"
  by (simp add: begin_grad_pass_def)










subsection \<open>Two evaluations of one graph\<close>























subsection \<open>A constant with a stored tangent\<close>









end
